theory Spec2Isabelle
  imports Main
begin

section \<open>Python values, exceptions and the library functions the fetcher calls\<close>

text \<open>
  The embedding follows \<^verbatim>\<open>ubuntu_image_fetcher.py\<close>. Text and byte strings are
  \<^typ>\<open>string\<close>; a character stands for one code point below 256 (HTTP header values
  reach the program decoded as Latin-1). The in-memory manifest is whatever
  \<^verbatim>\<open>json.load\<close> returned, so it is a JSON value, not a fixed record: the program
  never checks its shape. Numbers are integers; the program itself stores strings only.
\<close>

type_synonym bytes = string

datatype json =
    JNull
  | JBool bool
  | JNum int
  | JStr string
  | JArr "json list"
  | JObj "(string \<times> json) list"

datatype exc =
    RequestException
  | OSError
  | JSONDecodeError
  | KeyError
  | TypeError
  | AttributeError
  | ValueError
  | OverflowError

text \<open>
  Functions of the Python standard library whose code is not part of the repository, and
  facts of the process, are parameters of the model: \<open>sha256\<close> is
  \<^verbatim>\<open>hashlib.sha256(b).hexdigest()\<close>, \<open>url_basename\<close> is
  \<^verbatim>\<open>unquote(os.path.basename(urlparse(url).path))\<close>, \<open>json_load\<close> is
  \<^verbatim>\<open>json.load\<close> on the bytes of a file (\<open>None\<close> when decoding or parsing raises),
  \<open>cwd\<close> is the working directory as the list of its components from the root, and
  \<open>max_str_digits\<close> is \<^verbatim>\<open>sys.get_int_max_str_digits()\<close> (4300 by default, 0 for no
  limit).
\<close>

record lib =
  sha256 :: "bytes \<Rightarrow> string"
  url_basename :: "string \<Rightarrow> string"
  json_load :: "bytes \<Rightarrow> json option"
  cwd :: "string list"
  max_str_digits :: nat

definition FETCH_DIR :: string where
  "FETCH_DIR = ''Fetched_Images''"

definition path_join :: "string \<Rightarrow> string \<Rightarrow> string" where
  "path_join a b =
     (if b \<noteq> [] \<and> hd b = CHR ''/'' then b
      else if a = [] \<or> last a = CHR ''/'' then a @ b
      else a @ ''/'' @ b)"

definition MANIFEST :: string where
  "MANIFEST = path_join FETCH_DIR ''_manifest.json''"

definition MAX_BYTES :: nat where
  "MAX_BYTES = 15 * 1024 * 1024"

section \<open>String operations of Python\<close>

text \<open>The characters \<^verbatim>\<open>str.strip()\<close> and \<^verbatim>\<open>str.split()\<close> treat as whitespace.\<close>

definition is_space :: "char \<Rightarrow> bool" where
  "is_space c =
     (let n = (of_char c :: nat)
      in (9 \<le> n \<and> n \<le> 13) \<or> (28 \<le> n \<and> n \<le> 32) \<or> n = 133 \<or> n = 160)"

text \<open>
  The characters \<^verbatim>\<open>int()\<close> skips around a number: the ASCII whitespace, and the
  whitespace above ASCII, but not the separators 28 to 31.
\<close>

definition int_space :: "char \<Rightarrow> bool" where
  "int_space c =
     (let n = (of_char c :: nat)
      in (9 \<le> n \<and> n \<le> 13) \<or> n = 32 \<or> n = 133 \<or> n = 160)"

definition is_digit :: "char \<Rightarrow> bool" where
  "is_digit c = (let n = (of_char c :: nat) in 48 \<le> n \<and> n \<le> 57)"

text \<open>\<^verbatim>\<open>str.isalnum\<close> on the code points below 256.\<close>

definition isalnum :: "char \<Rightarrow> bool" where
  "isalnum c =
     (let n = (of_char c :: nat)
      in (48 \<le> n \<and> n \<le> 57) \<or> (65 \<le> n \<and> n \<le> 90) \<or> (97 \<le> n \<and> n \<le> 122)
         \<or> n = 170 \<or> n = 178 \<or> n = 179 \<or> n = 181 \<or> n = 185 \<or> n = 186
         \<or> (188 \<le> n \<and> n \<le> 190) \<or> (192 \<le> n \<and> n \<le> 214)
         \<or> (216 \<le> n \<and> n \<le> 246) \<or> (248 \<le> n \<and> n \<le> 255))"

text \<open>\<^verbatim>\<open>s.strip()\<close> and \<^verbatim>\<open>s.strip(chars)\<close>: drop the characters from both ends.\<close>

definition strip_chars :: "(char \<Rightarrow> bool) \<Rightarrow> string \<Rightarrow> string" where
  "strip_chars P s = rev (dropWhile P (rev (dropWhile P s)))"

definition startswith :: "string \<Rightarrow> string \<Rightarrow> bool" where
  "startswith s p = (take (length p) s = p)"

text \<open>
  \<^verbatim>\<open>sub in s\<close> and \<^verbatim>\<open>s.split(sub, 1)[-1]\<close>: the text after the first occurrence
  of \<open>sub\<close>, if there is one.
\<close>

fun after_first :: "string \<Rightarrow> string \<Rightarrow> string option" where
  "after_first sub [] = (if sub = [] then Some [] else None)"
| "after_first sub (c # cs) =
     (if startswith (c # cs) sub then Some (drop (length sub) (c # cs))
      else after_first sub cs)"

text \<open>\<^verbatim>\<open>str(i)\<close> for a natural number, and the value of a run of decimal digits.\<close>

definition digit_char :: "nat \<Rightarrow> char" where
  "digit_char n = char_of (48 + n)"

fun str_nat :: "nat \<Rightarrow> string" where
  "str_nat n = (if n < 10 then [digit_char n] else str_nat (n div 10) @ [digit_char (n mod 10)])"

declare str_nat.simps [simp del]

definition nat_of_digits :: "string \<Rightarrow> nat" where
  "nat_of_digits s = foldl (\<lambda>a c. 10 * a + (of_char c - 48)) 0 s"

text \<open>
  \<^verbatim>\<open>int(s)\<close> on a string: surrounding whitespace is dropped, one sign is allowed, the
  digits may be grouped by single underscores, and with a limit \<open>lim > 0\<close> there are at
  most \<open>lim\<close> digits; anything else raises \<^verbatim>\<open>ValueError\<close>.
\<close>

fun grouped_digits :: "string \<Rightarrow> bool" where
  "grouped_digits [] = False"
| "grouped_digits [c] = is_digit c"
| "grouped_digits (c # d # cs) =
     (is_digit c \<and> (if d = CHR ''_'' then grouped_digits cs else grouped_digits (d # cs)))"

definition py_int :: "nat \<Rightarrow> string \<Rightarrow> int option" where
  "py_int lim s =
     (let t = strip_chars int_space s;
          neg = (t \<noteq> [] \<and> hd t = CHR ''-'');
          u = (if t \<noteq> [] \<and> (hd t = CHR ''-'' \<or> hd t = CHR ''+'') then tl t else t)
      in if grouped_digits u \<and> \<not> (0 < lim \<and> lim < length (filter is_digit u))
         then Some ((if neg then - 1 else 1) * int (nat_of_digits (filter (\<lambda>c. c \<noteq> CHR ''_'') u)))
         else None)"

text \<open>\<^verbatim>\<open>s.split(sep)\<close> for a one-character separator, with the current piece reversed.\<close>

fun split_on :: "(char \<Rightarrow> bool) \<Rightarrow> string \<Rightarrow> string \<Rightarrow> string list" where
  "split_on P [] cur = [rev cur]"
| "split_on P (c # cs) cur =
     (if P c then rev cur # split_on P cs [] else split_on P cs (c # cur))"

section \<open>Paths and files\<close>

text \<open>
  Paths are POSIX paths; symbolic links and file systems that fold case are outside the
  model. A location is the list of the components of an absolute path. The disk lists
  what exists: a file of bytes written by anything (\<open>Raw\<close>), a file that holds the text
  \<^verbatim>\<open>json.dump\<close> writes for \<open>j\<close>, which \<^verbatim>\<open>json.load\<close> reads back as \<open>j\<close>
  (\<open>Json j\<close>), or a directory (\<open>Dir\<close>). The working directory and its ancestors are
  directories without being listed, and so is the output directory: the program looks
  up a path below it after \<^verbatim>\<open>os.makedirs\<close> has returned, or, for the first load of
  the manifest, finds nothing listed below it when it is not there.
\<close>

type_synonym loc = "string list"

datatype content = Raw bytes | Json json | Dir

type_synonym fs = "(loc \<times> content) list"

definition fetch_dir_loc :: "lib \<Rightarrow> loc" where
  "fetch_dir_loc L = cwd L @ [FETCH_DIR]"

definition manifest_loc :: "lib \<Rightarrow> loc" where
  "manifest_loc L = cwd L @ [FETCH_DIR, ''_manifest.json'']"

definition is_prefix :: "loc \<Rightarrow> loc \<Rightarrow> bool" where
  "is_prefix q x = (take (length q) x = q)"

definition is_dir :: "lib \<Rightarrow> fs \<Rightarrow> loc \<Rightarrow> bool" where
  "is_dir L d q = (is_prefix q (fetch_dir_loc L) \<or> map_of d q = Some Dir)"

definition split_path :: "string \<Rightarrow> string list" where
  "split_path p = split_on (\<lambda>c. c = CHR ''/'') p []"

text \<open>
  The walk of the operating system along the components of a path: every step is taken
  from a directory; an empty component and \<^verbatim>\<open>.\<close> stay, \<^verbatim>\<open>..\<close> goes up (the root is
  its own parent), a name goes down, whether or not anything is there.
\<close>

fun walk :: "(loc \<Rightarrow> bool) \<Rightarrow> loc \<Rightarrow> string list \<Rightarrow> loc option" where
  "walk isd cur [] = Some cur"
| "walk isd cur (c # cs) =
     (if \<not> isd cur then None
      else if c = [] \<or> c = ''.'' then walk isd cur cs
      else if c = ''..'' then walk isd (butlast cur) cs
      else walk isd (cur @ [c]) cs)"

definition resolve :: "lib \<Rightarrow> fs \<Rightarrow> string \<Rightarrow> loc option" where
  "resolve L d p =
     (if p = [] then None
      else walk (is_dir L d) (if hd p = CHR ''/'' then [] else cwd L) (split_path p))"

text \<open>\<^verbatim>\<open>os.path.exists\<close>: the path leads to a file or to a directory.\<close>

definition path_exists :: "lib \<Rightarrow> fs \<Rightarrow> string \<Rightarrow> bool" where
  "path_exists L d p =
     (case resolve L d p of
        None \<Rightarrow> False
      | Some q \<Rightarrow> is_dir L d q \<or> map_of d q \<noteq> None)"

text \<open>
  \<^verbatim>\<open>d[k] = v\<close> on a dictionary kept in insertion order; the same function writes a
  file at a location (\<^verbatim>\<open>open(path, "wb")\<close> creates or replaces it). \<^verbatim>\<open>os.remove\<close>
  drops the entry.
\<close>

fun dict_set :: "'k \<Rightarrow> 'v \<Rightarrow> ('k \<times> 'v) list \<Rightarrow> ('k \<times> 'v) list" where
  "dict_set k v [] = [(k, v)]"
| "dict_set k v ((k', v') # r) = (if k' = k then (k, v) # r else (k', v') # dict_set k v r)"

definition write_file :: "loc \<Rightarrow> content \<Rightarrow> fs \<Rightarrow> fs" where
  "write_file q c d = dict_set q c d"

definition remove_file :: "loc \<Rightarrow> fs \<Rightarrow> fs" where
  "remove_file q d = filter (\<lambda>(x, c). x \<noteq> q) d"

section \<open>Manifest store\<close>

definition empty_manifest :: json where
  "empty_manifest = JObj [(''hashes'', JObj []), (''files'', JArr [])]"

text \<open>
  The body of the \<^verbatim>\<open>try\<close> in \<^verbatim>\<open>load_manifest\<close>: \<^verbatim>\<open>open\<close> raises when the
  file cannot be read (\<open>unreadable\<close>, or a directory of that name), \<^verbatim>\<open>json.load\<close>
  raises when the content does not parse.
\<close>

definition read_manifest :: "lib \<Rightarrow> bool \<Rightarrow> fs \<Rightarrow> exc + json" where
  "read_manifest L unreadable d =
     (case resolve L d MANIFEST of
        None \<Rightarrow> Inl OSError
      | Some q \<Rightarrow>
          (case map_of d q of
             None \<Rightarrow> Inl OSError
           | Some c \<Rightarrow>
               if unreadable then Inl OSError
               else (case c of
                       Json j \<Rightarrow> Inr j
                     | Raw b \<Rightarrow>
                         (case json_load L b of
                            None \<Rightarrow> Inl JSONDecodeError
                          | Some j \<Rightarrow> Inr j)
                     | Dir \<Rightarrow> Inl OSError)))"

definition load_manifest :: "lib \<Rightarrow> bool \<Rightarrow> fs \<Rightarrow> json" where
  "load_manifest L unreadable d =
     (if path_exists L d MANIFEST then
        (case read_manifest L unreadable d of
           Inr j \<Rightarrow> j
         | Inl e \<Rightarrow> empty_manifest)
      else empty_manifest)"

text \<open>
  \<^verbatim>\<open>save_manifest\<close> opens \<open>MANIFEST\<close> for writing, which leads to \<open>manifest_loc\<close>
  (lemma \<open>resolve_MANIFEST\<close> below), and replaces what is there.
\<close>

definition save_manifest :: "lib \<Rightarrow> json \<Rightarrow> fs \<Rightarrow> fs" where
  "save_manifest L m d = write_file (manifest_loc L) (Json m) d"

section \<open>Filename resolver\<close>

definition allowed_char :: "char \<Rightarrow> bool" where
  "allowed_char c = (isalnum c \<or> c \<in> set ''-_. '')"

definition safe_filename_from_url :: "lib \<Rightarrow> nat \<Rightarrow> string \<Rightarrow> string" where
  "safe_filename_from_url L now_ms url =
     (let name = strip_chars is_space (url_basename L url);
          name = (if name = [] \<or> CHR ''.'' \<notin> set name
                  then ''downloaded_'' @ str_nat now_ms @ ''.jpg'' else name);
          name = filter allowed_char name
      in if name \<noteq> [] then name else ''image_'' @ str_nat now_ms @ ''.jpg'')"

text \<open>
  \<^verbatim>\<open>filename_from_headers\<close>, on the value of the Content-Disposition header
  (\<open>None\<close> when the header is absent, read as the empty string).
\<close>

definition filename_from_headers :: "string option \<Rightarrow> string option" where
  "filename_from_headers cdh =
     (let cd = (case cdh of None \<Rightarrow> [] | Some v \<Rightarrow> v)
      in case after_first ''filename='' cd of
           None \<Rightarrow> None
         | Some rest \<Rightarrow>
             (let part = strip_chars (\<lambda>c. c = CHR '';'') (strip_chars is_space rest);
                  part = strip_chars (\<lambda>c. c = CHR 0x27) (strip_chars (\<lambda>c. c = CHR 0x22) part)
              in if part \<noteq> [] then Some part else None))"

text \<open>
  \<^verbatim>\<open>os.path.splitext\<close>: the extension starts at the last period of the last path
  component, unless only periods stand before it in that component.
\<close>

definition split_last :: "char \<Rightarrow> string \<Rightarrow> string \<times> string" where
  "split_last c s =
     (rev (dropWhile (\<lambda>x. x \<noteq> c) (rev s)), rev (takeWhile (\<lambda>x. x \<noteq> c) (rev s)))"

definition splitext :: "string \<Rightarrow> string \<times> string" where
  "splitext p =
     (let (dir, fname) = split_last (CHR ''/'') p;
          (stem_dot, e) = split_last (CHR ''.'') fname
      in if stem_dot = [] then (p, [])
         else if list_ex (\<lambda>c. c \<noteq> CHR ''.'') (butlast stem_dot)
              then (dir @ butlast stem_dot, CHR ''.'' # e)
              else (p, []))"

definition numbered :: "string \<Rightarrow> string \<Rightarrow> nat \<Rightarrow> string" where
  "numbered base ext i = base @ '' ('' @ str_nat i @ '')'' @ ext"


text \<open>The \<open>i\<close>-th name the loop of \<^verbatim>\<open>ensure_unique_path\<close> tries for a path.\<close>

definition candidate :: "string \<Rightarrow> nat \<Rightarrow> string" where
  "candidate p0 i = numbered (fst (splitext p0)) (snd (splitext p0)) i"

definition taken_from :: "lib \<Rightarrow> fs \<Rightarrow> string \<Rightarrow> nat \<Rightarrow> nat set" where
  "taken_from L d p0 i = {j. i \<le> j \<and> path_exists L d (candidate p0 j)}"

lemma nat_of_digits_str_nat: "nat_of_digits (str_nat n) = n"
proof (induction n rule: str_nat.induct)
  case (1 n)
  show ?case
  proof (cases "n < 10")
    case True
    then show ?thesis
      by (subst str_nat.simps) (simp add: nat_of_digits_def digit_char_def)
  next
    case False
    with 1 have ih: "nat_of_digits (str_nat (n div 10)) = n div 10" by simp
    have "nat_of_digits (str_nat n)
            = 10 * nat_of_digits (str_nat (n div 10)) + (of_char (digit_char (n mod 10)) - 48)"
      using False by (subst str_nat.simps) (simp add: nat_of_digits_def)
    also have "of_char (digit_char (n mod 10)) - 48 = n mod 10"
      by (simp add: digit_char_def)
    finally show ?thesis using ih by simp
  qed
qed

lemma str_nat_inj: "str_nat i = str_nat j \<Longrightarrow> i = j"
  by (metis nat_of_digits_str_nat)


lemma str_nat_digits: "c \<in> set (str_nat n) \<Longrightarrow> is_digit c"
proof (induction n rule: str_nat.induct)
  case (1 n)
  have d: "is_digit (digit_char k)" if "k < 10" for k
  proof -
    have "(of_char (digit_char k) :: nat) = 48 + k"
      using that by (simp add: digit_char_def)
    then show ?thesis
      using that by (simp add: is_digit_def)
  qed
  show ?case
  proof (cases "n < 10")
    case True
    with "1.prems" show ?thesis
      by (subst (asm) str_nat.simps) (auto simp: d)
  next
    case False
    with "1.prems" have "c \<in> set (str_nat (n div 10)) \<or> c = digit_char (n mod 10)"
      by (subst (asm) str_nat.simps) auto
    with False "1.IH" show ?thesis
      by (auto simp: d)
  qed
qed

lemma str_nat_no_slash: "CHR ''/'' \<notin> set (str_nat n)"
  using str_nat_digits[of "CHR ''/''" n] by (auto simp: is_digit_def)

lemma splitext_ext_no_slash: "CHR ''/'' \<notin> set (snd (splitext p))"
proof -
  have a: "CHR ''/'' \<notin> set (snd (split_last (CHR ''/'') p))"
    by (auto simp: split_last_def dest: set_takeWhileD)
  have b: "set (snd (split_last (CHR ''.'') s)) \<subseteq> set s" for s
    by (auto simp: split_last_def dest: set_takeWhileD)
  show ?thesis
    using a b[of "snd (split_last (CHR ''/'') p)"]
    by (auto simp: splitext_def Let_def split_beta)
qed

lemma split_on_nonempty: "split_on P s cur \<noteq> []"
  by (induction s arbitrary: cur) auto

lemma split_on_no_sep: "\<forall>c\<in>set t. \<not> P c \<Longrightarrow> split_on P t cur = [rev cur @ t]"
  by (induction t arbitrary: cur) auto

lemma split_on_append:
  "\<forall>c\<in>set t. \<not> P c \<Longrightarrow>
   split_on P (s @ t) cur = butlast (split_on P s cur) @ [last (split_on P s cur) @ t]"
proof (induction s arbitrary: cur)
  case Nil
  then show ?case by (simp add: split_on_no_sep)
next
  case (Cons c s)
  then show ?case
    by (simp add: split_on_nonempty)
qed

lemma walk_snoc:
  "walk isd cur (cs @ [c]) =
     (case walk isd cur cs of None \<Rightarrow> None | Some q \<Rightarrow> walk isd q [c])"
  by (induction cs arbitrary: cur) auto

lemma resolve_numbered:
  assumes "CHR ''/'' \<notin> set ext"
  shows "resolve L d (numbered base ext j) =
     (case walk (is_dir L d) (if hd (base @ '' '') = CHR ''/'' then [] else cwd L)
             (butlast (split_path base)) of
        None \<Rightarrow> None
      | Some q \<Rightarrow>
          if is_dir L d q
          then Some (q @ [last (split_path base) @ '' ('' @ str_nat j @ '')'' @ ext])
          else None)"
proof -
  let ?t = "'' ('' @ str_nat j @ '')'' @ ext"
  let ?c = "last (split_path base) @ ?t"
  have t: "\<forall>c\<in>set ?t. \<not> c = CHR ''/''"
    using assms str_nat_no_slash[of j] by auto
  have n: "numbered base ext j = base @ ?t"
    by (simp add: numbered_def)
  have h: "hd (base @ ?t) = hd (base @ '' '')"
    by (cases base) simp_all
  have sp: "split_path (base @ ?t) = butlast (split_path base) @ [?c]"
    unfolding split_path_def using t by (rule split_on_append)
  have sp_in: "CHR '' '' \<in> set x" if "x = ?c" for x
    using that by simp
  have c: "?c \<noteq> [] \<and> ?c \<noteq> ''.'' \<and> ?c \<noteq> ''..''"
  proof (intro conjI notI)
    assume "?c = []"
    from sp_in[OF this[symmetric]] show False by simp
  next
    assume "?c = ''.''"
    from sp_in[OF this[symmetric]] show False by simp
  next
    assume "?c = ''..''"
    from sp_in[OF this[symmetric]] show False by simp
  qed
  have w: "walk isd q [x] = (if isd q then Some (q @ [x]) else None)"
    if "x \<noteq> [] \<and> x \<noteq> ''.'' \<and> x \<noteq> ''..''" for isd q x
    using that by simp
  have ne: "base @ ?t \<noteq> []"
    by simp
  have "resolve L d (base @ ?t) =
      (case walk (is_dir L d) (if hd (base @ '' '') = CHR ''/'' then [] else cwd L)
             (butlast (split_path base)) of
        None \<Rightarrow> None
      | Some q \<Rightarrow> walk (is_dir L d) q [?c])"
    unfolding resolve_def sp walk_snoc h using ne by (simp only: if_False)
  then show ?thesis
    unfolding n by (simp only: w[OF c])
qed

lemma finite_existing: "finite {x. is_dir L d x \<or> map_of d x \<noteq> None}"
proof -
  have "x \<in> (\<lambda>n. take n (fetch_dir_loc L)) ` {..length (fetch_dir_loc L)}"
    if "is_prefix x (fetch_dir_loc L)" for x
  proof -
    from that have x: "x = take (length x) (fetch_dir_loc L)"
      by (simp add: is_prefix_def)
    then have "length x = length (take (length x) (fetch_dir_loc L))"
      by simp
    then have "length x \<le> length (fetch_dir_loc L)"
      by simp
    with x show ?thesis
      by (intro image_eqI[where x = "length x"]) simp_all
  qed
  then have "{x. is_prefix x (fetch_dir_loc L)}
      \<subseteq> (\<lambda>n. take n (fetch_dir_loc L)) ` {..length (fetch_dir_loc L)}"
    by blast
  then have "finite {x. is_prefix x (fetch_dir_loc L)}"
    by (rule finite_subset) simp
  moreover have "{x. map_of d x \<noteq> None} \<subseteq> fst ` set d"
    by (auto dest!: map_of_SomeD intro: rev_image_eqI)
  then have "finite {x. map_of d x \<noteq> None}"
    by (rule finite_subset) simp
  moreover have "{x. is_dir L d x \<or> map_of d x \<noteq> None}
      \<subseteq> {x. is_prefix x (fetch_dir_loc L)} \<union> {x. map_of d x \<noteq> None}"
    by (auto simp: is_dir_def)
  ultimately show ?thesis
    by (meson finite_UnI finite_subset)
qed

lemma finite_taken_from: "finite (taken_from L d p0 i)"
proof -
  let ?base = "fst (splitext p0)" and ?ext = "snd (splitext p0)"
  let ?w = "walk (is_dir L d) (if hd (?base @ '' '') = CHR ''/'' then [] else cwd L)
             (butlast (split_path ?base))"
  let ?E = "{x. is_dir L d x \<or> map_of d x \<noteq> None}"
  note r = resolve_numbered[where ext = ?ext and base = ?base and L = L and d = d,
      OF splitext_ext_no_slash]
  show ?thesis
  proof (cases ?w)
    case None
    then have "taken_from L d p0 i = {}"
      by (auto simp: taken_from_def candidate_def path_exists_def r)
    then show ?thesis by simp
  next
    case (Some q)
    let ?f = "\<lambda>j. q @ [last (split_path ?base) @ '' ('' @ str_nat j @ '')'' @ ?ext]"
    have inj: "inj_on ?f (taken_from L d p0 i)"
      by (auto simp: inj_on_def dest: str_nat_inj)
    have "?f ` taken_from L d p0 i \<subseteq> ?E"
      using Some by (auto simp: taken_from_def candidate_def path_exists_def r split: if_splits)
    then have "finite (?f ` taken_from L d p0 i)"
      by (rule finite_subset) (rule finite_existing)
    then show ?thesis
      using inj by (rule finite_imageD)
  qed
qed

lemma taken_from_Suc_less:
  "card (taken_from L d p0 (Suc i)) + (if path_exists L d (candidate p0 i) then 1 else 0)
     \<le> card (taken_from L d p0 i)"
proof (cases "path_exists L d (candidate p0 i)")
  case True
  have "i \<in> taken_from L d p0 i" "i \<notin> taken_from L d p0 (Suc i)"
    using True by (simp_all add: taken_from_def)
  moreover have "taken_from L d p0 (Suc i) \<subseteq> taken_from L d p0 i"
    by (auto simp: taken_from_def)
  ultimately have "taken_from L d p0 (Suc i) \<subset> taken_from L d p0 i"
    by blast
  then have "card (taken_from L d p0 (Suc i)) < card (taken_from L d p0 i)"
    by (rule psubset_card_mono[OF finite_taken_from])
  with True show ?thesis by simp
next
  case False
  have "taken_from L d p0 (Suc i) \<subseteq> taken_from L d p0 i"
    by (auto simp: taken_from_def)
  then have "card (taken_from L d p0 (Suc i)) \<le> card (taken_from L d p0 i)"
    by (rule card_mono[OF finite_taken_from])
  with False show ?thesis by simp
qed

text \<open>
  The loop of \<^verbatim>\<open>ensure_unique_path\<close> for the path \<open>p0\<close>, entered with \<open>i\<close> and the
  current \<open>path\<close>; \<open>base\<close> and \<open>ext\<close> are the two parts of \<open>splitext p0\<close>. It ends
  because the numbered names differ in their last component and only finitely many
  things exist.
\<close>

function unique_loop :: "lib \<Rightarrow> fs \<Rightarrow> string \<Rightarrow> nat \<Rightarrow> string \<Rightarrow> string" where
  "unique_loop L d p0 i path =
     (if path_exists L d path then unique_loop L d p0 (Suc i) (candidate p0 i)
      else path)"
  by pat_completeness auto
termination
proof (relation "measure (\<lambda>(L, d, p0, i, path).
          card (taken_from L d p0 i) + (if path_exists L d path then 1 else 0))")
  show "wf (measure (\<lambda>(L, d, p0, i, path).
          card (taken_from L d p0 i) + (if path_exists L d path then 1 else 0)))"
    by simp
next
  fix L :: lib and d :: fs and p0 :: string and i :: nat and path :: string
  assume "path_exists L d path"
  then show "((L, d, p0, Suc i, candidate p0 i), (L, d, p0, i, path))
      \<in> measure (\<lambda>(L, d, p0, i, path).
          card (taken_from L d p0 i) + (if path_exists L d path then 1 else 0))"
    using taken_from_Suc_less[of L d p0 i] by simp
qed

declare unique_loop.simps [simp del]

definition ensure_unique_path :: "lib \<Rightarrow> fs \<Rightarrow> string \<Rightarrow> string" where
  "ensure_unique_path L d path = unique_loop L d path 1 path"

section \<open>The in-memory manifest\<close>

definition basename :: "string \<Rightarrow> string" where
  "basename p = snd (split_last (CHR ''/'') p)"

text \<open>
  Python's \<^verbatim>\<open>v[k]\<close>, \<^verbatim>\<open>k in v\<close>, \<^verbatim>\<open>v[k] = x\<close> and \<^verbatim>\<open>v.append(x)\<close> for a
  string \<open>k\<close>, on any JSON value \<open>v\<close>, with the exception each raises.
\<close>

definition getitem :: "json \<Rightarrow> string \<Rightarrow> exc + json" where
  "getitem v k =
     (case v of
        JObj kvs \<Rightarrow> (case map_of kvs k of None \<Rightarrow> Inl KeyError | Some x \<Rightarrow> Inr x)
      | _ \<Rightarrow> Inl TypeError)"

definition contains :: "json \<Rightarrow> string \<Rightarrow> exc + bool" where
  "contains v k =
     (case v of
        JObj kvs \<Rightarrow> Inr (map_of kvs k \<noteq> None)
      | JArr xs \<Rightarrow> Inr (JStr k \<in> set xs)
      | JStr s \<Rightarrow> Inr (after_first k s \<noteq> None)
      | _ \<Rightarrow> Inl TypeError)"

definition setitem :: "json \<Rightarrow> string \<Rightarrow> json \<Rightarrow> exc + json" where
  "setitem v k x =
     (case v of
        JObj kvs \<Rightarrow> Inr (JObj (dict_set k x kvs))
      | _ \<Rightarrow> Inl TypeError)"

definition list_append :: "json \<Rightarrow> json \<Rightarrow> exc + json" where
  "list_append v x =
     (case v of
        JArr xs \<Rightarrow> Inr (JArr (xs @ [x]))
      | _ \<Rightarrow> Inl AttributeError)"

text \<open>
  The object under a key is mutated in place; in the model the changed object is put
  back under its key.
\<close>

definition put_back :: "json \<Rightarrow> string \<Rightarrow> json \<Rightarrow> json" where
  "put_back m k v = (case m of JObj kvs \<Rightarrow> JObj (dict_set k v kvs) | _ \<Rightarrow> m)"

text \<open>
  The record step (the two mutations before \<^verbatim>\<open>save_manifest\<close>): the exception
  raised, if any, and the manifest as the mutations made before it leave it.
\<close>

definition record_entry :: "json \<Rightarrow> string \<Rightarrow> string \<Rightarrow> exc option \<times> json" where
  "record_entry m file_hash name =
     (case getitem m ''hashes'' of
        Inl x \<Rightarrow> (Some x, m)
      | Inr hs \<Rightarrow>
          (case setitem hs file_hash (JStr name) of
             Inl x \<Rightarrow> (Some x, m)
           | Inr hs' \<Rightarrow>
               (let m1 = put_back m ''hashes'' hs'
                in case getitem m1 ''files'' of
                     Inl x \<Rightarrow> (Some x, m1)
                   | Inr fl \<Rightarrow>
                       (case list_append fl (JStr name) of
                          Inl x \<Rightarrow> (Some x, m1)
                        | Inr fl' \<Rightarrow> (None, put_back m1 ''files'' fl')))))"


section \<open>The fetch pipeline\<close>

record state =
  disk :: fs
  manifest :: json

text \<open>
  What the network and the operating system answer during one attempt. \<open>Raises\<close> is a
  \<^verbatim>\<open>requests.RequestException\<close>. The chunks of a response are those
  \<^verbatim>\<open>iter_content\<close> yields; \<open>stream_fails\<close> says that it raises after them.
\<close>

datatype 'a reply = Raises | Reply 'a

record head_response =
  head_ok :: bool
  head_content_type :: "string option"
  head_content_length :: "string option"

record get_response =
  status_error :: bool
  content_type :: "string option"
  content_disposition :: "string option"
  chunks :: "bytes list"
  stream_fails :: bool

record env =
  makedirs_fails :: bool
  head_reply :: "head_response reply"
  get_reply :: "get_response reply"
  now_ms :: nat
  open_fails :: bool
  save_fails :: bool

text \<open>The line an attempt prints.\<close>

datatype outcome =
    SkippedNotImage string
  | SkippedTooLarge int string
  | NotAnImage string string
  | Aborted string
  | DuplicateSkipped json string
  | Fetched string string
  | ConnectionError
  | ErrorOccurred exc

definition header_or_empty :: "string option \<Rightarrow> string" where
  "header_or_empty h = (case h of None \<Rightarrow> [] | Some v \<Rightarrow> v)"

definition is_image_response :: "get_response \<Rightarrow> bool" where
  "is_image_response r = startswith (header_or_empty (content_type r)) ''image/''"


text \<open>
  \<^verbatim>\<open>int(clen)/1024/1024\<close> in the message of the probe: the first division raises
  \<^verbatim>\<open>OverflowError\<close> when its rounded result is no finite float.
\<close>

definition float_overflow :: "int \<Rightarrow> bool" where
  "float_overflow n = (2 ^ 1034 - 2 ^ 980 \<le> n)"

text \<open>
  The HEAD block: \<open>Inr (Some out)\<close> is an early return with the line \<open>out\<close>,
  \<open>Inr None\<close> goes on to the GET, \<open>Inl\<close> is an exception that leaves the block.
\<close>

definition probe :: "lib \<Rightarrow> env \<Rightarrow> string \<Rightarrow> exc + outcome option" where
  "probe L e url =
     (case head_reply e of
        Raises \<Rightarrow> Inr None
      | Reply h \<Rightarrow>
          if head_ok h then
            if \<not> startswith (header_or_empty (head_content_type h)) ''image/''
            then Inr (Some (SkippedNotImage url))
            else (case head_content_length h of
                    None \<Rightarrow> Inr None
                  | Some clen \<Rightarrow>
                      if clen = [] then Inr None
                      else (case py_int (max_str_digits L) clen of
                              None \<Rightarrow> Inl ValueError
                            | Some n \<Rightarrow>
                                if n > int MAX_BYTES
                                then (if float_overflow n then Inl OverflowError
                                      else Inr (Some (SkippedTooLarge n url)))
                                else Inr None))
          else Inr None)"

text \<open>
  The streaming loop, with the running byte count and the bytes written (and hashed) so
  far.
\<close>

datatype stream_result = Exceeded bytes | Completed bytes

fun stream_chunks :: "bytes list \<Rightarrow> nat \<Rightarrow> bytes \<Rightarrow> stream_result" where
  "stream_chunks [] n w = Completed w"
| "stream_chunks (c # cs) n w =
     (if c = [] then stream_chunks cs n w
      else if n + length c > MAX_BYTES then Exceeded w
      else stream_chunks cs (n + length c) (w @ c))"


text \<open>
  After a complete transfer of \<open>w\<close> to \<open>out_path\<close>, which is the location \<open>q\<close>: the
  duplicate check, the record step and the save. The state returned with an exception
  holds the mutations made before it. Opening the manifest for writing raises when the
  environment says so or a directory has its name.
\<close>

definition finish ::
  "lib \<Rightarrow> env \<Rightarrow> string \<Rightarrow> string \<Rightarrow> loc \<Rightarrow> bytes \<Rightarrow> state \<Rightarrow> (exc + outcome) \<times> state" where
  "finish L e url out_path q w s =
     (let file_hash = sha256 L w; m = manifest s
      in case getitem m ''hashes'' of
           Inl x \<Rightarrow> (Inl x, s)
         | Inr hs \<Rightarrow>
             (case contains hs file_hash of
                Inl x \<Rightarrow> (Inl x, s)
              | Inr True \<Rightarrow>
                  (let s' = s\<lparr>disk := remove_file q (disk s)\<rparr>
                   in case getitem hs file_hash of
                        Inl x \<Rightarrow> (Inl x, s')
                      | Inr existing \<Rightarrow> (Inr (DuplicateSkipped existing url), s'))
              | Inr False \<Rightarrow>
                  (let name = basename out_path
                   in case record_entry m file_hash name of
                        (Some x, m') \<Rightarrow> (Inl x, s\<lparr>manifest := m'\<rparr>)
                      | (None, m') \<Rightarrow>
                          if save_fails e \<or> map_of (disk s) (manifest_loc L) = Some Dir
                          then (Inl OSError, s\<lparr>manifest := m'\<rparr>)
                          else (Inr (Fetched name out_path),
                                \<lparr>disk = save_manifest L m' (disk s), manifest = m'\<rparr>))))"

definition resolve_name :: "lib \<Rightarrow> env \<Rightarrow> string \<Rightarrow> get_response \<Rightarrow> string" where
  "resolve_name L e url r =
     (case filename_from_headers (content_disposition r) of
        Some f \<Rightarrow> f
      | None \<Rightarrow> safe_filename_from_url L (now_ms e) url)"


text \<open>
  \<^verbatim>\<open>open(out_path, "wb")\<close>: the location written to, if the file opens. It raises
  when the environment says so, when the path leads nowhere (a missing directory, or a
  file where a directory is needed) and when the path is a directory.
\<close>

definition open_target :: "lib \<Rightarrow> env \<Rightarrow> fs \<Rightarrow> string \<Rightarrow> loc option" where
  "open_target L e d p =
     (if open_fails e then None
      else (case resolve L d p of
              None \<Rightarrow> None
            | Some q \<Rightarrow> if is_dir L d q then None else Some q))"

text \<open>The \<^verbatim>\<open>with requests.get(...)\<close> block.\<close>

definition download :: "lib \<Rightarrow> env \<Rightarrow> string \<Rightarrow> state \<Rightarrow> (exc + outcome) \<times> state" where
  "download L e url s =
     (case get_reply e of
        Raises \<Rightarrow> (Inl RequestException, s)
      | Reply r \<Rightarrow>
          if status_error r then (Inl RequestException, s)
          else if \<not> is_image_response r
          then (Inr (NotAnImage (case content_type r of None \<Rightarrow> ''?'' | Some t \<Rightarrow> t) url), s)
          else
            (let fname = resolve_name L e url r;
                 out_path = ensure_unique_path L (disk s) (path_join FETCH_DIR fname)
             in case open_target L e (disk s) out_path of
                  None \<Rightarrow> (Inl OSError, s)
                | Some q \<Rightarrow>
                    (case stream_chunks (chunks r) 0 [] of
                       Exceeded w \<Rightarrow>
                         (Inr (Aborted url),
                          s\<lparr>disk := remove_file q (write_file q (Raw w) (disk s))\<rparr>)
                     | Completed w \<Rightarrow>
                         (let s1 = s\<lparr>disk := write_file q (Raw w) (disk s)\<rparr>
                          in if stream_fails r then (Inl RequestException, s1)
                             else finish L e url out_path q w s1))))"

text \<open>The body of the outer \<^verbatim>\<open>try\<close>, and \<^verbatim>\<open>respectful_fetch\<close> with its handlers.\<close>

definition fetch_body :: "lib \<Rightarrow> env \<Rightarrow> string \<Rightarrow> state \<Rightarrow> (exc + outcome) \<times> state" where
  "fetch_body L e url s =
     (if makedirs_fails e then (Inl OSError, s)
      else (case probe L e url of
              Inl x \<Rightarrow> (Inl x, s)
            | Inr (Some out) \<Rightarrow> (Inr out, s)
            | Inr None \<Rightarrow> download L e url s))"

definition respectful_fetch :: "lib \<Rightarrow> env \<Rightarrow> string \<Rightarrow> state \<Rightarrow> outcome \<times> state" where
  "respectful_fetch L e url s =
     (case fetch_body L e url s of
        (Inr out, s') \<Rightarrow> (out, s')
      | (Inl x, s') \<Rightarrow>
          (if x = RequestException then ConnectionError else ErrorOccurred x, s'))"


section \<open>The orchestrator\<close>

text \<open>\<^verbatim>\<open>raw.split()\<close> and the tokens of the input line.\<close>

definition split_ws :: "string \<Rightarrow> string list" where
  "split_ws s = filter (\<lambda>t. t \<noteq> []) (split_on is_space s [])"

definition parse_urls :: "string \<Rightarrow> string list" where
  "parse_urls raw =
     concat (map (\<lambda>part. filter (\<lambda>u. u \<noteq> [])
                    (map (strip_chars is_space) (split_on (\<lambda>c. c = CHR '','') part [])))
                 (split_ws raw))"

text \<open>
  The loop of \<^verbatim>\<open>main\<close>: the \<open>k\<close>-th attempt of the run meets the environment
  \<open>world k\<close>.
\<close>

fun fetch_all :: "lib \<Rightarrow> (nat \<Rightarrow> env) \<Rightarrow> nat \<Rightarrow> string list \<Rightarrow> state \<Rightarrow> outcome list \<times> state" where
  "fetch_all L world k [] s = ([], s)"
| "fetch_all L world k (url # urls) s =
     (let (out, s1) = respectful_fetch L (world k) url s;
          (outs, s2) = fetch_all L world (Suc k) urls s1
      in (out # outs, s2))"

text \<open>
  \<^verbatim>\<open>main\<close> on the line read from the terminal: the exit status, the outcomes printed
  and the final state of the disk.
\<close>

definition main :: "lib \<Rightarrow> (nat \<Rightarrow> env) \<Rightarrow> bool \<Rightarrow> string \<Rightarrow> fs \<Rightarrow> int \<times> outcome list \<times> fs" where
  "main L world unreadable line d =
     (let raw = strip_chars is_space line
      in if raw = [] then (0, [], d)
         else (let urls = parse_urls raw;
                   m = load_manifest L unreadable d;
                   (outs, s) = fetch_all L world 0 urls \<lparr>disk = d, manifest = m\<rparr>
               in (0, outs, disk s)))"


section \<open>Predicates of the specification\<close>

text \<open>
  The manifest shape the program writes: an object whose \<open>hashes\<close> is an object and
  whose \<open>files\<close> is a list. The invariant of the specification: every value of
  \<open>hashes\<close> is an entry of \<open>files\<close>.
\<close>

definition manifest_shaped :: "json \<Rightarrow> bool" where
  "manifest_shaped m =
     (case m of
        JObj kvs \<Rightarrow>
          (case map_of kvs ''hashes'' of
             Some (JObj hs) \<Rightarrow> (case map_of kvs ''files'' of Some (JArr fl) \<Rightarrow> True | _ \<Rightarrow> False)
           | _ \<Rightarrow> False)
      | _ \<Rightarrow> False)"

definition hash_values :: "json \<Rightarrow> json list" where
  "hash_values m = (case getitem m ''hashes'' of Inr (JObj hs) \<Rightarrow> map snd hs | _ \<Rightarrow> [])"

definition hash_keys :: "json \<Rightarrow> string list" where
  "hash_keys m = (case getitem m ''hashes'' of Inr (JObj hs) \<Rightarrow> map fst hs | _ \<Rightarrow> [])"

definition lookup_hash :: "json \<Rightarrow> string \<Rightarrow> json option" where
  "lookup_hash m h = (case getitem m ''hashes'' of Inr (JObj hs) \<Rightarrow> map_of hs h | _ \<Rightarrow> None)"

definition file_entries :: "json \<Rightarrow> json list" where
  "file_entries m = (case getitem m ''files'' of Inr (JArr fl) \<Rightarrow> fl | _ \<Rightarrow> [])"

definition hashes_in_files :: "json \<Rightarrow> bool" where
  "hashes_in_files m = (set (hash_values m) \<subseteq> set (file_entries m))"

text \<open>The manifest as \<^verbatim>\<open>load_manifest\<close> reads it from the disk has the shape and the invariant.\<close>

definition disk_sound :: "lib \<Rightarrow> fs \<Rightarrow> bool" where
  "disk_sound L d =
     (manifest_shaped (load_manifest L False d) \<and> hashes_in_files (load_manifest L False d))"

text \<open>
  The operations on the manifest: loading it, the record step of a store (which counts
  only if it raises nothing) and saving it.
\<close>

datatype manifest_op = Load bool | Record string string | Save

fun apply_op :: "lib \<Rightarrow> manifest_op \<Rightarrow> state \<Rightarrow> state option" where
  "apply_op L (Load unreadable) s = Some (s\<lparr>manifest := load_manifest L unreadable (disk s)\<rparr>)"
| "apply_op L (Record file_hash name) s =
     (case record_entry (manifest s) file_hash name of
        (None, m') \<Rightarrow> Some (s\<lparr>manifest := m'\<rparr>)
      | (Some x, m') \<Rightarrow> None)"
| "apply_op L Save s = Some (s\<lparr>disk := save_manifest L (manifest s) (disk s)\<rparr>)"

fun apply_ops :: "lib \<Rightarrow> manifest_op list \<Rightarrow> state \<Rightarrow> state option" where
  "apply_ops L [] s = Some s"
| "apply_ops L (x # xs) s =
     (case apply_op L x s of None \<Rightarrow> None | Some s' \<Rightarrow> apply_ops L xs s')"


definition body :: "get_response \<Rightarrow> bytes" where
  "body r = concat (chunks r)"

text \<open>The path an attempt writes to.\<close>

definition out_path_of :: "lib \<Rightarrow> env \<Rightarrow> string \<Rightarrow> get_response \<Rightarrow> fs \<Rightarrow> string" where
  "out_path_of L e url r d =
     ensure_unique_path L d (path_join FETCH_DIR (resolve_name L e url r))"

text \<open>
  An attempt that gets as far as streaming the body of the response \<open>r\<close> into the
  location \<open>q\<close>: the directory can be made, the probe lets the attempt through, the GET
  answers \<open>r\<close> with a success status and an image type, and the output file opens at
  \<open>q\<close>. It \<open>transfers\<close> the body if, moreover, the stream does not break.
\<close>

definition reaches_stream ::
  "lib \<Rightarrow> env \<Rightarrow> string \<Rightarrow> get_response \<Rightarrow> fs \<Rightarrow> loc \<Rightarrow> bool" where
  "reaches_stream L e url r d q =
     (\<not> makedirs_fails e \<and> probe L e url = Inr None \<and> get_reply e = Reply r
      \<and> \<not> status_error r \<and> is_image_response r
      \<and> open_target L e d (out_path_of L e url r d) = Some q)"

definition transfers ::
  "lib \<Rightarrow> env \<Rightarrow> string \<Rightarrow> get_response \<Rightarrow> fs \<Rightarrow> loc \<Rightarrow> bool" where
  "transfers L e url r d q = (reaches_stream L e url r d q \<and> \<not> stream_fails r)"

text \<open>The manifest can be saved: nothing keeps it from being opened for writing.\<close>

definition can_save :: "lib \<Rightarrow> env \<Rightarrow> fs \<Rightarrow> bool" where
  "can_save L e d = (\<not> save_fails e \<and> map_of d (manifest_loc L) \<noteq> Some Dir)"

text \<open>
  The name under which an attempt records its file, and the manifest after the record
  step of that attempt.
\<close>

definition name_of :: "lib \<Rightarrow> env \<Rightarrow> string \<Rightarrow> get_response \<Rightarrow> fs \<Rightarrow> string" where
  "name_of L e url r d = basename (out_path_of L e url r d)"

definition recorded :: "lib \<Rightarrow> env \<Rightarrow> string \<Rightarrow> get_response \<Rightarrow> state \<Rightarrow> json" where
  "recorded L e url r s =
     snd (record_entry (manifest s) (sha256 L (body r)) (name_of L e url r (disk s)))"

text \<open>A state whose manifest, in memory and on disk, has the shape and the invariant.\<close>

definition sound_state :: "lib \<Rightarrow> state \<Rightarrow> bool" where
  "sound_state L s =
     (manifest_shaped (manifest s) \<and> hashes_in_files (manifest s) \<and> disk_sound L (disk s))"


section \<open>A library instance for the examples\<close>

text \<open>
  The theorems below hold for every library. The examples are evaluated with stand-ins:
  a digest that is the content itself behind a tag, the text after the last slash for
  the name in a URL, \<^verbatim>\<open>json.load\<close> on the few byte strings the examples use, the
  working directory \<^verbatim>\<open>/w\<close> and the default limit on digits.
\<close>

definition demo_json_load :: "bytes \<Rightarrow> json option" where
  "demo_json_load b =
     (if b = ''[]'' then Some (JArr [])
      else if b = ''{}'' then Some (JObj [])
      else None)"

definition demo_lib :: lib where
  "demo_lib = \<lparr> sha256 = (\<lambda>b. ''sha:'' @ b),
                url_basename = (\<lambda>u. rev (takeWhile (\<lambda>c. c \<noteq> CHR ''/'') (rev u))),
                json_load = demo_json_load,
                cwd = [''w''],
                max_str_digits = 4300 \<rparr>"

text \<open>
  An attempt whose HEAD request fails and whose GET answers an image with the given
  Content-Disposition header and chunks.
\<close>

definition image_response :: "string option \<Rightarrow> bytes list \<Rightarrow> get_response" where
  "image_response cd cs =
     \<lparr>status_error = False, content_type = Some ''image/png'', content_disposition = cd,
      chunks = cs, stream_fails = False\<rparr>"

definition demo_env :: "string option \<Rightarrow> bytes list \<Rightarrow> env" where
  "demo_env cd cs =
     \<lparr>makedirs_fails = False, head_reply = Raises, get_reply = Reply (image_response cd cs),
      now_ms = 0, open_fails = False, save_fails = False\<rparr>"

text \<open>
  The attempts of a run that receive the given bodies, each as one list of chunks; a
  body of exactly the cap, in chunks of 8192 bytes; the manifest after a first store of
  content of hash \<open>h\<close> under the name \<open>n\<close>, and after a second store.
\<close>

definition demo_world :: "bytes list list \<Rightarrow> nat \<Rightarrow> env" where
  "demo_world css k = demo_env None (if k < length css then css ! k else [])"

definition cap_chunks :: "bytes list" where
  "cap_chunks = replicate 1920 (replicate 8192 CHR ''a'')"

definition one_entry :: "string \<Rightarrow> string \<Rightarrow> json" where
  "one_entry h n = JObj [(''hashes'', JObj [(h, JStr n)]), (''files'', JArr [JStr n])]"

definition two_entries :: "string \<Rightarrow> string \<Rightarrow> string \<Rightarrow> string \<Rightarrow> json" where
  "two_entries h n h' n' =
     JObj [(''hashes'', JObj [(h, JStr n), (h', JStr n')]),
           (''files'', JArr [JStr n, JStr n'])]"

text \<open>
  A run of three attempts: the GET of the first fails, the second is answered with a
  web page, the third with an image of content \<^verbatim>\<open>A\<close>.
\<close>

definition mixed_world :: "nat \<Rightarrow> env" where
  "mixed_world k =
     (if k = 0 then (demo_env None [])\<lparr>get_reply := Raises\<rparr>
      else if k = 1
      then (demo_env None [])\<lparr>get_reply := Reply \<lparr>status_error = False,
             content_type = Some ''text/html'', content_disposition = None,
             chunks = [''<html>''], stream_fails = False\<rparr>\<rparr>
      else demo_env None [''A''])"

text \<open>
  The state in which the \<open>k\<close>-th attempt of a run over \<open>urls\<close> starts, the run starting
  in \<open>s\<close>: the state the attempts before it have left, one after the other.
\<close>

primrec attempt_state :: "lib \<Rightarrow> (nat \<Rightarrow> env) \<Rightarrow> string list \<Rightarrow> state \<Rightarrow> nat \<Rightarrow> state" where
  "attempt_state L world urls s 0 = s"
| "attempt_state L world urls s (Suc k) =
     snd (respectful_fetch L (world k) (urls ! k) (attempt_state L world urls s k))"

section \<open>Properties of the manifest store\<close>

lemma MANIFEST_eq: "MANIFEST = ''Fetched_Images/_manifest.json''"
  by (simp add: MANIFEST_def path_join_def FETCH_DIR_def)

lemmas resolve_eval =
  resolve_def split_path_def is_dir_def is_prefix_def fetch_dir_loc_def FETCH_DIR_def

lemma is_dir_fetch_dir: "is_dir L d (cwd L)" "is_dir L d (fetch_dir_loc L)"
  by (simp_all add: is_dir_def is_prefix_def fetch_dir_loc_def)

lemma resolve_MANIFEST: "resolve L d MANIFEST = Some (manifest_loc L)"
  using is_dir_fetch_dir[of L d]
  by (simp add: MANIFEST_eq resolve_def split_path_def manifest_loc_def fetch_dir_loc_def
      FETCH_DIR_def)

lemma manifest_loc_no_prefix: "\<not> is_prefix (manifest_loc L) (fetch_dir_loc L)"
proof
  assume "is_prefix (manifest_loc L) (fetch_dir_loc L)"
  then have "length (manifest_loc L) = length (take (length (manifest_loc L)) (fetch_dir_loc L))"
    by (simp add: is_prefix_def)
  then show False
    by (simp add: manifest_loc_def fetch_dir_loc_def)
qed

lemma path_exists_MANIFEST: "path_exists L d MANIFEST = (map_of d (manifest_loc L) \<noteq> None)"
  by (auto simp: path_exists_def resolve_MANIFEST is_dir_def manifest_loc_no_prefix)

text \<open>
  C10. \<^verbatim>\<open>load_manifest\<close> hands back whatever the stored content parses to, of any
  shape, a list or an object without the two keys included. The empty default is
  produced by the reset branches only, that is when the file is absent or opening or
  parsing it raises: a result equal to the default either comes from such a branch or is
  the stored content itself.
\<close>

theorem load_manifest_returns_parsed:
  "(map_of d (manifest_loc L) = Some c \<and> \<not> unreadable
      \<and> (c = Json j \<or> (\<exists>b. c = Raw b \<and> json_load L b = Some j))
      \<longrightarrow> load_manifest L unreadable d = j)
   \<and> (load_manifest L unreadable d = empty_manifest
      \<longrightarrow> \<not> path_exists L d MANIFEST \<or> isl (read_manifest L unreadable d)
          \<or> read_manifest L unreadable d = Inr empty_manifest)"
  by (auto simp: load_manifest_def read_manifest_def path_exists_MANIFEST resolve_MANIFEST
           split: option.splits sum.splits if_splits content.splits)

theorem load_manifest_returns_parsed_witness:
  "load_manifest demo_lib False [(manifest_loc demo_lib, Json (JArr []))] = JArr []
   \<and> load_manifest demo_lib False [(manifest_loc demo_lib, Json (JObj [(''files'', JArr [])]))]
       = JObj [(''files'', JArr [])]
   \<and> load_manifest demo_lib False [(manifest_loc demo_lib, Raw ''{}'')] = JObj []
   \<and> load_manifest demo_lib False [] = empty_manifest
   \<and> \<not> path_exists demo_lib [] MANIFEST"
proof -
  have a: "load_manifest demo_lib False [(manifest_loc demo_lib, Json (JArr []))] = JArr []"
    using load_manifest_returns_parsed
      [where d = "[(manifest_loc demo_lib, Json (JArr []))]" and c = "Json (JArr [])"
         and unreadable = False and j = "JArr []" and L = demo_lib]
    by simp
  have b: "load_manifest demo_lib False
             [(manifest_loc demo_lib, Json (JObj [(''files'', JArr [])]))]
             = JObj [(''files'', JArr [])]"
    using load_manifest_returns_parsed
      [where d = "[(manifest_loc demo_lib, Json (JObj [(''files'', JArr [])]))]"
         and c = "Json (JObj [(''files'', JArr [])])" and unreadable = False
         and j = "JObj [(''files'', JArr [])]" and L = demo_lib]
    by simp
  have c: "load_manifest demo_lib False [(manifest_loc demo_lib, Raw ''{}'')] = JObj []"
    using load_manifest_returns_parsed
      [where d = "[(manifest_loc demo_lib, Raw ''{}'')]" and c = "Raw ''{}''"
         and unreadable = False and j = "JObj []" and L = demo_lib]
    by (simp add: demo_lib_def demo_json_load_def)
  have e: "\<not> path_exists demo_lib [] MANIFEST"
    by (simp add: path_exists_MANIFEST)
  have d: "load_manifest demo_lib False [] = empty_manifest"
    using load_manifest_returns_parsed
      [where d = "[]" and c = "Raw []" and unreadable = False and j = JNull and L = demo_lib] e
    by (simp add: load_manifest_def)
  from a b c d e show ?thesis by simp
qed

text \<open>
  C8, as the specification words it, fails: stored content that parses but is no
  manifest, such as a JSON list, does not degrade to the empty record.
\<close>

theorem load_manifest_malformed_counterexample:
  "load_manifest demo_lib False [(manifest_loc demo_lib, Json (JArr []))] \<noteq> empty_manifest"
  by (simp add: load_manifest_def read_manifest_def path_exists_MANIFEST resolve_MANIFEST
      empty_manifest_def)

text \<open>
  C8, amended. \<^verbatim>\<open>load_manifest\<close> returns the empty default whenever the manifest
  file does not exist or cannot be opened or parsed. It raises nothing: every exception
  of the body is caught, so the result is a value in each case.
\<close>

theorem load_manifest_default_on_failure:
  "\<not> path_exists L d MANIFEST \<or> unreadable
     \<or> (\<exists>b. map_of d (manifest_loc L) = Some (Raw b) \<and> json_load L b = None)
   \<Longrightarrow> load_manifest L unreadable d = empty_manifest"
  by (auto simp: load_manifest_def read_manifest_def path_exists_MANIFEST resolve_MANIFEST
           split: option.splits sum.splits content.splits)

theorem load_manifest_default_on_failure_witness:
  "map_of [(manifest_loc demo_lib, Raw ''{hashes'')] (manifest_loc demo_lib) = Some (Raw ''{hashes'')
   \<and> json_load demo_lib ''{hashes'' = None
   \<and> load_manifest demo_lib False [(manifest_loc demo_lib, Raw ''{hashes'')] = empty_manifest
   \<and> load_manifest demo_lib True [(manifest_loc demo_lib, Json (JArr []))] = empty_manifest
   \<and> load_manifest demo_lib False [([''w'', ''Fetched_Images'', ''a.jpg''], Raw ''A'')]
       = empty_manifest"
proof -
  have h: "map_of [(manifest_loc demo_lib, Raw ''{hashes'')] (manifest_loc demo_lib)
             = Some (Raw ''{hashes'')
           \<and> json_load demo_lib ''{hashes'' = None"
    by (simp add: demo_lib_def demo_json_load_def)
  have a: "load_manifest demo_lib False [(manifest_loc demo_lib, Raw ''{hashes'')] = empty_manifest"
    using h load_manifest_default_on_failure
      [where d = "[(manifest_loc demo_lib, Raw ''{hashes'')]" and unreadable = False
         and L = demo_lib]
    by blast
  have b: "load_manifest demo_lib True [(manifest_loc demo_lib, Json (JArr []))] = empty_manifest"
    using load_manifest_default_on_failure
      [where d = "[(manifest_loc demo_lib, Json (JArr []))]" and unreadable = True
         and L = demo_lib]
    by simp
  have c: "load_manifest demo_lib False [([''w'', ''Fetched_Images'', ''a.jpg''], Raw ''A'')]
             = empty_manifest"
    using load_manifest_default_on_failure
      [where d = "[([''w'', ''Fetched_Images'', ''a.jpg''], Raw ''A'')]" and unreadable = False
         and L = demo_lib]
    by (simp add: path_exists_MANIFEST manifest_loc_def demo_lib_def)
  from h a b c show ?thesis by simp
qed

section \<open>Properties of the filename resolver\<close>

lemma unique_loop_fresh: "\<not> path_exists L d p \<Longrightarrow> unique_loop L d p0 i p = p"
  by (subst unique_loop.simps) simp

lemma ensure_unique_path_free: "\<not> path_exists L d p \<Longrightarrow> ensure_unique_path L d p = p"
  by (simp add: ensure_unique_path_def unique_loop_fresh)

lemma str_nat_allowed: "list_all allowed_char (str_nat n)"
proof (induction n rule: str_nat.induct)
  case (1 n)
  have d: "allowed_char (digit_char k)" if "k < 10" for k
  proof -
    have "(of_char (digit_char k) :: nat) = 48 + k"
      using that by (simp add: digit_char_def)
    then show ?thesis
      using that by (simp add: allowed_char_def isalnum_def)
  qed
  show ?case
  proof (cases "n < 10")
    case True
    then show ?thesis by (subst str_nat.simps) (simp add: d)
  next
    case False
    with 1 have "list_all allowed_char (str_nat (n div 10))" by simp
    with False show ?thesis by (subst str_nat.simps) (simp add: d)
  qed
qed

text \<open>
  The name derived from the URL is sanitized: it is never empty and holds only
  alphanumerics, hyphen, underscore, period and space.
\<close>

lemma safe_filename_from_url_allowed:
  "list_all allowed_char (safe_filename_from_url L t url) \<and> safe_filename_from_url L t url \<noteq> []"
proof -
  have img: "list_all allowed_char (''image_'' @ str_nat t @ ''.jpg'')"
    using str_nat_allowed[of t] by (simp add: allowed_char_def isalnum_def)
  have flt: "list_all allowed_char (filter allowed_char xs)" for xs
    by (simp add: list_all_iff)
  show ?thesis
    unfolding safe_filename_from_url_def Let_def
    using img flt by (simp del: list_all_append)
qed

text \<open>
  C4 fails on the name taken from the Content-Disposition header: \<^verbatim>\<open>respectful_fetch\<close>
  uses it as \<^verbatim>\<open>filename_from_headers\<close> returns it, and only the name derived from
  the URL passes through the filter. Here the header names \<^verbatim>\<open>../evil?.png\<close>; the
  file is written under that name, outside the output directory.
\<close>


theorem header_filename_not_sanitized:
  "respectful_fetch demo_lib
      \<lparr>makedirs_fails = False, head_reply = Raises,
       get_reply = Reply \<lparr>status_error = False, content_type = Some ''image/png'',
                          content_disposition = Some ''attachment; filename=../evil?.png'',
                          chunks = [''A''], stream_fails = False\<rparr>,
       now_ms = 0, open_fails = False, save_fails = False\<rparr>
      ''http://h/a.png'' \<lparr>disk = [], manifest = empty_manifest\<rparr>
   = (Fetched ''evil?.png'' ''Fetched_Images/../evil?.png'',
      \<lparr>disk = [([''w'', ''evil?.png''], Raw ''A''),
               (manifest_loc demo_lib,
                Json (JObj [(''hashes'', JObj [(''sha:A'', JStr ''evil?.png'')]),
                            (''files'', JArr [JStr ''evil?.png''])]))],
       manifest = JObj [(''hashes'', JObj [(''sha:A'', JStr ''evil?.png'')]),
                        (''files'', JArr [JStr ''evil?.png''])]\<rparr>)
   \<and> \<not> list_all allowed_char ''../evil?.png''"
proof -
  have fn: "filename_from_headers (Some ''attachment; filename=../evil?.png'') = Some ''../evil?.png''"
    by (simp add: filename_from_headers_def startswith_def strip_chars_def is_space_def)
  have pj: "path_join FETCH_DIR ''../evil?.png'' = ''Fetched_Images/../evil?.png''"
    by (simp add: path_join_def FETCH_DIR_def)
  have rs: "resolve demo_lib [] ''Fetched_Images/../evil?.png'' = Some [''w'', ''evil?.png'']"
    by (simp add: resolve_eval demo_lib_def)
  have nd: "\<not> is_dir demo_lib [] [''w'', ''evil?.png'']"
    by (simp add: resolve_eval demo_lib_def)
  have eu: "ensure_unique_path demo_lib [] ''Fetched_Images/../evil?.png''
      = ''Fetched_Images/../evil?.png''"
    by (rule ensure_unique_path_free) (simp add: path_exists_def rs nd)
  have ot: "open_target demo_lib e [] ''Fetched_Images/../evil?.png''
      = (if open_fails e then None else Some [''w'', ''evil?.png''])" for e
    by (simp add: open_target_def rs nd)
  have bn: "basename ''Fetched_Images/../evil?.png'' = ''evil?.png''"
    by (simp add: basename_def split_last_def)
  have re: "record_entry empty_manifest ''sha:A'' ''evil?.png''
      = (None, JObj [(''hashes'', JObj [(''sha:A'', JStr ''evil?.png'')]),
                     (''files'', JArr [JStr ''evil?.png''])])"
    by (simp add: record_entry_def empty_manifest_def getitem_def setitem_def put_back_def
        list_append_def)
  have ct: "contains (JObj []) ''sha:A'' = Inr False"
    by (simp add: contains_def)
  have gi: "getitem empty_manifest ''hashes'' = Inr (JObj [])"
    by (simp add: empty_manifest_def getitem_def)
  have sh: "sha256 demo_lib b = ''sha:'' @ b" for b
    by (simp add: demo_lib_def)
  have ml: "manifest_loc demo_lib = [''w'', ''Fetched_Images'', ''_manifest.json'']"
    by (simp add: manifest_loc_def demo_lib_def FETCH_DIR_def)
  have bad: "\<not> list_all allowed_char ''../evil?.png''"
    by (simp add: allowed_char_def isalnum_def)
  have run: "respectful_fetch demo_lib
      \<lparr>makedirs_fails = False, head_reply = Raises,
       get_reply = Reply \<lparr>status_error = False, content_type = Some ''image/png'',
                          content_disposition = Some ''attachment; filename=../evil?.png'',
                          chunks = [''A''], stream_fails = False\<rparr>,
       now_ms = 0, open_fails = False, save_fails = False\<rparr>
      ''http://h/a.png'' \<lparr>disk = [], manifest = empty_manifest\<rparr>
   = (Fetched ''evil?.png'' ''Fetched_Images/../evil?.png'',
      \<lparr>disk = [([''w'', ''evil?.png''], Raw ''A''),
               (manifest_loc demo_lib,
                Json (JObj [(''hashes'', JObj [(''sha:A'', JStr ''evil?.png'')]),
                            (''files'', JArr [JStr ''evil?.png''])]))],
       manifest = JObj [(''hashes'', JObj [(''sha:A'', JStr ''evil?.png'')]),
                        (''files'', JArr [JStr ''evil?.png''])]\<rparr>)"
    by (simp add: respectful_fetch_def fetch_body_def probe_def download_def
        is_image_response_def header_or_empty_def startswith_def resolve_name_def fn pj eu ot
        finish_def sh bn re ct gi write_file_def save_manifest_def ml
        Let_def MAX_BYTES_def)
  from run bad show ?thesis by simp
qed

section \<open>Properties of the probe\<close>

text \<open>
  The probe is advisory where it fails or is refused, and a rejection by the probe is an
  early return that touches neither the disk nor the manifest. With a Content-Length
  that is absent, empty or readable as an integer that the message can show, a
  successful probe rejects exactly when the type is no image or the length is above the
  cap.
\<close>

lemma probe_advisory:
  "head_reply e = Raises \<or> (\<exists>h. head_reply e = Reply h \<and> \<not> head_ok h) \<Longrightarrow> probe L e url = Inr None"
  by (auto simp: probe_def)

lemma probe_reject_no_effect:
  "\<not> makedirs_fails e \<Longrightarrow> probe L e url = Inr (Some out) \<Longrightarrow> respectful_fetch L e url s = (out, s)"
  by (simp add: respectful_fetch_def fetch_body_def)

lemma probe_rejects_iff:
  assumes "head_reply e = Reply h" and "head_ok h"
    and "head_content_length h = None \<or> head_content_length h = Some []
         \<or> (\<exists>c n. head_content_length h = Some c \<and> py_int (max_str_digits L) c = Some n
                \<and> \<not> float_overflow n)"
  shows "(\<exists>out. probe L e url = Inr (Some out)) \<longleftrightarrow>
         \<not> startswith (header_or_empty (head_content_type h)) ''image/''
         \<or> (\<exists>c n. head_content_length h = Some c \<and> c \<noteq> []
                \<and> py_int (max_str_digits L) c = Some n \<and> int MAX_BYTES < n)"
  using assms by (auto simp: probe_def split: option.splits)

lemma py_int_repeated_length: "py_int lim ''42, 42'' = None"
  by (simp add: py_int_def strip_chars_def int_space_def is_digit_def)

text \<open>
  C6 fails when the probe succeeds with an image type and a Content-Length that
  \<^verbatim>\<open>int\<close> cannot read, such as the repeated value \<^verbatim>\<open>42, 42\<close>: the
  \<^verbatim>\<open>ValueError\<close> is not a \<^verbatim>\<open>RequestException\<close>, leaves the HEAD block and ends the
  attempt with an error line. Nothing is downloaded, whatever the GET would have
  answered, though the type is an image and no length above the cap was declared.
\<close>

theorem probe_unreadable_length_aborts:
  "respectful_fetch L
      (e\<lparr>makedirs_fails := False,
         head_reply := Reply \<lparr>head_ok = True, head_content_type = Some ''image/png'',
                               head_content_length = Some ''42, 42''\<rparr>\<rparr>)
      url s = (ErrorOccurred ValueError, s)"
  by (simp add: respectful_fetch_def fetch_body_def probe_def header_or_empty_def
      startswith_def py_int_repeated_length)

section \<open>The invariant of the manifest\<close>

lemma map_of_dict_set: "map_of (dict_set k v xs) = (map_of xs)(k \<mapsto> v)"
  by (induction xs) (auto simp: fun_eq_iff)

lemma set_dict_set: "set (dict_set k v xs) \<subseteq> insert (k, v) (set xs)"
  by (induction xs) (auto split: if_splits)

lemma values_dict_set: "set (map snd (dict_set k v xs)) \<subseteq> insert v (set (map snd xs))"
  using set_dict_set[of k v xs] by force

lemma manifest_shaped_iff:
  "manifest_shaped m \<longleftrightarrow>
     (\<exists>kvs hs fl. m = JObj kvs \<and> map_of kvs ''hashes'' = Some (JObj hs)
        \<and> map_of kvs ''files'' = Some (JArr fl))"
  by (cases m) (auto simp: manifest_shaped_def split: option.splits json.splits)

lemma load_unreadable: "load_manifest L True d = empty_manifest"
  by (simp add: load_manifest_def read_manifest_def split: option.splits)

lemma load_saved: "load_manifest L False (save_manifest L m d) = m"
  by (simp add: load_manifest_def read_manifest_def save_manifest_def write_file_def
      path_exists_MANIFEST resolve_MANIFEST map_of_dict_set)

lemma empty_manifest_sound: "manifest_shaped empty_manifest \<and> hashes_in_files empty_manifest"
  by (simp add: manifest_shaped_iff hashes_in_files_def hash_values_def file_entries_def
      empty_manifest_def getitem_def)

lemma record_entry_shaped:
  assumes "manifest_shaped m"
  obtains kvs hs fl where "m = JObj kvs" "map_of kvs ''hashes'' = Some (JObj hs)"
    "map_of kvs ''files'' = Some (JArr fl)"
    "record_entry m h n = (None, JObj (dict_set ''files'' (JArr (fl @ [JStr n]))
        (dict_set ''hashes'' (JObj (dict_set h (JStr n) hs)) kvs)))"
proof -
  from assms obtain kvs hs fl where m: "m = JObj kvs" "map_of kvs ''hashes'' = Some (JObj hs)"
    "map_of kvs ''files'' = Some (JArr fl)"
    by (auto simp: manifest_shaped_iff)
  then have "record_entry m h n = (None, JObj (dict_set ''files'' (JArr (fl @ [JStr n]))
        (dict_set ''hashes'' (JObj (dict_set h (JStr n) hs)) kvs)))"
    by (simp add: record_entry_def getitem_def setitem_def put_back_def list_append_def
        map_of_dict_set)
  with m show thesis by (rule that)
qed

lemma record_entry_sound:
  assumes "manifest_shaped m" "hashes_in_files m" "record_entry m h n = (x, m')"
  shows "x = None \<and> manifest_shaped m' \<and> hashes_in_files m'"
proof -
  from assms(1) obtain kvs hs fl where m: "m = JObj kvs" "map_of kvs ''hashes'' = Some (JObj hs)"
    "map_of kvs ''files'' = Some (JArr fl)"
    and r: "record_entry m h n = (None, JObj (dict_set ''files'' (JArr (fl @ [JStr n]))
        (dict_set ''hashes'' (JObj (dict_set h (JStr n) hs)) kvs)))"
    by (rule record_entry_shaped)
  from assms(2) m have sub: "set (map snd hs) \<subseteq> set fl"
    by (simp add: hashes_in_files_def hash_values_def file_entries_def getitem_def)
  from r assms(3) have x: "x = None" and m': "m' = JObj (dict_set ''files'' (JArr (fl @ [JStr n]))
        (dict_set ''hashes'' (JObj (dict_set h (JStr n) hs)) kvs))"
    by simp_all
  have "manifest_shaped m'"
    by (simp add: m' manifest_shaped_iff map_of_dict_set)
  moreover have "hashes_in_files m'"
  proof -
    have "hash_values m' = map snd (dict_set h (JStr n) hs)"
      by (simp add: m' hash_values_def getitem_def map_of_dict_set)
    moreover have "file_entries m' = fl @ [JStr n]"
      by (simp add: m' file_entries_def getitem_def map_of_dict_set)
    moreover have "set (map snd (dict_set h (JStr n) hs)) \<subseteq> set (fl @ [JStr n])"
    proof -
      have "set (map snd (dict_set h (JStr n) hs)) \<subseteq> insert (JStr n) (set (map snd hs))"
        by (rule values_dict_set)
      also have "\<dots> \<subseteq> insert (JStr n) (set fl)"
        using sub by (rule insert_mono)
      also have "\<dots> = set (fl @ [JStr n])"
        by simp
      finally show ?thesis .
    qed
    ultimately show ?thesis
      by (simp only: hashes_in_files_def)
  qed
  ultimately show ?thesis using x by simp
qed

lemma apply_op_sound:
  assumes "sound_state L s" "apply_op L x s = Some s'"
  shows "sound_state L s'"
proof (cases x)
  case (Load u)
  with assms show ?thesis
    by (cases u) (auto simp: sound_state_def disk_sound_def load_unreadable empty_manifest_sound)
next
  case (Record h n)
  obtain e m' where r: "record_entry (manifest s) h n = (e, m')" by (cases "record_entry (manifest s) h n")
  with assms Record have "s' = s\<lparr>manifest := m'\<rparr>" by (auto split: option.splits)
  moreover from assms(1) r have "manifest_shaped m' \<and> hashes_in_files m'"
    using record_entry_sound by (simp add: sound_state_def) blast
  ultimately show ?thesis using assms(1) by (simp add: sound_state_def)
next
  case Save
  with assms show ?thesis
    by (auto simp: sound_state_def disk_sound_def load_saved)
qed

lemma apply_ops_sound:
  "sound_state L s \<Longrightarrow> apply_ops L xs s = Some s' \<Longrightarrow> sound_state L s'"
  by (induction xs arbitrary: s) (auto split: option.splits dest: apply_op_sound)


text \<open>
  C7, as the specification words it, fails: \<^verbatim>\<open>load_manifest\<close> returns the stored
  content unchecked, so a manifest file whose \<open>hashes\<close> names a file that \<open>files\<close>
  lacks is loaded as it is.
\<close>

theorem loaded_manifest_invariant_counterexample:
  "map_option (\<lambda>s. hashes_in_files (manifest s))
     (apply_ops demo_lib [Load False]
        \<lparr>disk = [(manifest_loc demo_lib,
                  Json (JObj [(''hashes'', JObj [(''h1'', JStr ''a.jpg'')]),
                              (''files'', JArr [])]))],
         manifest = empty_manifest\<rparr>)
   = Some False"
  by (simp add: load_manifest_def read_manifest_def path_exists_MANIFEST resolve_MANIFEST
      hashes_in_files_def hash_values_def file_entries_def getitem_def)

text \<open>
  C7, amended. From the default manifest, or from a loaded manifest when the stored
  content has the manifest shape and the invariant itself, every state reached by
  loading, record steps that raise nothing and saving keeps every value of \<open>hashes\<close>
  among the entries of \<open>files\<close>.
\<close>

theorem hashes_in_files_reachable:
  assumes "disk_sound L d"
    and "m0 = empty_manifest \<or> m0 = load_manifest L unreadable d"
    and "apply_ops L ops \<lparr>disk = d, manifest = m0\<rparr> = Some s"
  shows "hashes_in_files (manifest s)"
proof -
  have "manifest_shaped m0 \<and> hashes_in_files m0"
  proof (cases "m0 = empty_manifest \<or> unreadable")
    case True
    then show ?thesis
      using assms(2) by (auto simp: empty_manifest_sound load_unreadable)
  next
    case False
    then show ?thesis
      using assms(1,2) by (simp add: disk_sound_def)
  qed
  then have "sound_state L \<lparr>disk = d, manifest = m0\<rparr>"
    using assms(1) by (simp add: sound_state_def)
  then have "sound_state L s"
    using assms(3) by (rule apply_ops_sound)
  then show ?thesis
    by (simp add: sound_state_def)
qed

theorem hashes_in_files_reachable_witness:
  "disk_sound demo_lib []
   \<and> apply_ops demo_lib [Record ''h1'' ''a.jpg'', Save, Load False, Record ''h2'' ''b.jpg'']
        \<lparr>disk = [], manifest = empty_manifest\<rparr>
      = Some \<lparr>disk = [(manifest_loc demo_lib,
                        Json (JObj [(''hashes'', JObj [(''h1'', JStr ''a.jpg'')]),
                                    (''files'', JArr [JStr ''a.jpg''])]))],
               manifest = JObj [(''hashes'', JObj [(''h1'', JStr ''a.jpg''), (''h2'', JStr ''b.jpg'')]),
                                (''files'', JArr [JStr ''a.jpg'', JStr ''b.jpg''])]\<rparr>
   \<and> hashes_in_files (JObj [(''hashes'', JObj [(''h1'', JStr ''a.jpg''), (''h2'', JStr ''b.jpg'')]),
                             (''files'', JArr [JStr ''a.jpg'', JStr ''b.jpg''])])"
proof -
  have a: "disk_sound demo_lib []"
    by (simp add: disk_sound_def load_manifest_def path_exists_MANIFEST empty_manifest_sound)
  have b: "apply_ops demo_lib [Record ''h1'' ''a.jpg'', Save, Load False, Record ''h2'' ''b.jpg'']
        \<lparr>disk = [], manifest = empty_manifest\<rparr>
      = Some \<lparr>disk = [(manifest_loc demo_lib,
                        Json (JObj [(''hashes'', JObj [(''h1'', JStr ''a.jpg'')]),
                                    (''files'', JArr [JStr ''a.jpg''])]))],
               manifest = JObj [(''hashes'', JObj [(''h1'', JStr ''a.jpg''), (''h2'', JStr ''b.jpg'')]),
                                (''files'', JArr [JStr ''a.jpg'', JStr ''b.jpg''])]\<rparr>"
    by (simp add: record_entry_def empty_manifest_def getitem_def setitem_def put_back_def
        list_append_def save_manifest_def write_file_def load_manifest_def read_manifest_def
        path_exists_MANIFEST resolve_MANIFEST)
  from hashes_in_files_reachable[OF a _ b] a b show ?thesis
    by simp
qed

section \<open>Streaming, unique paths and files\<close>

lemma stream_complete:
  "n + length (concat cs) \<le> MAX_BYTES \<Longrightarrow> stream_chunks cs n w = Completed (w @ concat cs)"
  by (induction cs arbitrary: n w) auto

lemma stream_exceeded:
  "n \<le> MAX_BYTES \<Longrightarrow> MAX_BYTES < n + length (concat cs) \<Longrightarrow>
   \<exists>k<length cs. stream_chunks cs n w = Exceeded (w @ concat (take k cs))
      \<and> n + length (concat (take k cs)) \<le> MAX_BYTES
      \<and> MAX_BYTES < n + length (concat (take (Suc k) cs))"
proof (induction cs arbitrary: n w)
  case Nil
  then show ?case by simp
next
  case (Cons c cs)
  show ?case
  proof (cases "c = []")
    case True
    with Cons.prems have "MAX_BYTES < n + length (concat cs)" by simp
    from Cons.IH[OF Cons.prems(1) this, of w] obtain k where
      k: "k < length cs" "stream_chunks cs n w = Exceeded (w @ concat (take k cs))"
         "n + length (concat (take k cs)) \<le> MAX_BYTES"
         "MAX_BYTES < n + length (concat (take (Suc k) cs))" by blast
    with True show ?thesis
      by (intro exI[of _ "Suc k"]) simp
  next
    case False
    show ?thesis
    proof (cases "MAX_BYTES < n + length c")
      case True
      with False Cons.prems show ?thesis
        by (intro exI[of _ 0]) simp
    next
      case over: False
      then have a: "n + length c \<le> MAX_BYTES" by simp
      from Cons.prems have b: "MAX_BYTES < (n + length c) + length (concat cs)" by simp
      from Cons.IH[OF a b, of "w @ c"] obtain k where
        k: "k < length cs" "stream_chunks cs (n + length c) (w @ c) = Exceeded ((w @ c) @ concat (take k cs))"
           "(n + length c) + length (concat (take k cs)) \<le> MAX_BYTES"
           "MAX_BYTES < (n + length c) + length (concat (take (Suc k) cs))" by blast
      with False over show ?thesis
        by (intro exI[of _ "Suc k"]) (simp add: add.assoc)
    qed
  qed
qed

lemma unique_loop_not_exists: "\<not> path_exists L d (unique_loop L d p0 i p)"
proof (induction L d p0 i p rule: unique_loop.induct)
  case (1 L d p0 i path)
  then show ?case
    by (subst unique_loop.simps) simp
qed

lemma ensure_unique_path_not_exists: "\<not> path_exists L d (ensure_unique_path L d p)"
  by (simp add: ensure_unique_path_def unique_loop_not_exists)

lemma unique_loop_first_free:
  "path_exists L d p \<Longrightarrow>
   \<exists>j\<ge>i. unique_loop L d p0 i p = candidate p0 j
      \<and> (\<forall>k. i \<le> k \<and> k < j \<longrightarrow> path_exists L d (candidate p0 k))"
proof (induction L d p0 i p rule: unique_loop.induct)
  case (1 L d p0 i path)
  have step: "unique_loop L d p0 i path = unique_loop L d p0 (Suc i) (candidate p0 i)"
    using "1.prems" by (subst unique_loop.simps) simp
  show ?case
  proof (cases "path_exists L d (candidate p0 i)")
    case False
    then have "unique_loop L d p0 (Suc i) (candidate p0 i) = candidate p0 i"
      by (rule unique_loop_fresh)
    with step show ?thesis
      by (intro exI[of _ i]) auto
  next
    case True
    from "1.IH"[OF "1.prems" True] obtain j where j: "Suc i \<le> j"
      "unique_loop L d p0 (Suc i) (candidate p0 i) = candidate p0 j"
      "\<forall>k. Suc i \<le> k \<and> k < j \<longrightarrow> path_exists L d (candidate p0 k)"
      by blast
    have "\<forall>k. i \<le> k \<and> k < j \<longrightarrow> path_exists L d (candidate p0 k)"
    proof (intro allI impI)
      fix k assume k: "i \<le> k \<and> k < j"
      show "path_exists L d (candidate p0 k)"
      proof (cases "k = i")
        case True
        with \<open>path_exists L d (candidate p0 i)\<close> show ?thesis by simp
      next
        case False
        with k have "Suc i \<le> k \<and> k < j" by simp
        with j(3) show ?thesis by blast
      qed
    qed
    with j step show ?thesis
      by (intro exI[of _ j]) auto
  qed
qed

lemma ensure_unique_path_numbered:
  "path_exists L d p \<Longrightarrow>
   \<exists>i\<ge>1. ensure_unique_path L d p = candidate p i
      \<and> (\<forall>k. 1 \<le> k \<and> k < i \<longrightarrow> path_exists L d (candidate p k))"
  using unique_loop_first_free[of L d p 1 p]
  by (simp add: ensure_unique_path_def)

lemma map_of_write_file: "map_of (write_file q c d) = (map_of d)(q \<mapsto> c)"
  by (simp add: write_file_def map_of_dict_set)

lemma remove_dict_set: "filter (\<lambda>(x, c). x \<noteq> q) (dict_set q v d) = filter (\<lambda>(x, c). x \<noteq> q) d"
  by (induction d) auto

lemma remove_absent: "map_of d q = None \<Longrightarrow> filter (\<lambda>(x, c). x \<noteq> q) d = d"
  by (induction d) (auto split: if_splits)

lemma remove_write_fresh: "map_of d q = None \<Longrightarrow> remove_file q (write_file q c d) = d"
  by (simp add: remove_file_def write_file_def remove_dict_set remove_absent)

text \<open>
  The file an attempt opens is new: at the location the unique path leads to there is
  neither a file nor a directory. Writing a file there leaves every path leading where
  it led.
\<close>

lemma open_target_fresh:
  assumes "open_target L e d (ensure_unique_path L d p) = Some q"
  shows "resolve L d (ensure_unique_path L d p) = Some q" and "map_of d q = None"
    and "\<not> is_dir L d q"
proof -
  from assms show r: "resolve L d (ensure_unique_path L d p) = Some q" and "\<not> is_dir L d q"
    by (auto simp: open_target_def split: if_splits option.splits)
  with ensure_unique_path_not_exists[of L d p] show "map_of d q = None"
    by (auto simp: path_exists_def)
qed

lemma is_dir_write_file:
  "c \<noteq> Dir \<Longrightarrow> map_of d q \<noteq> Some Dir \<Longrightarrow> is_dir L (write_file q c d) = is_dir L d"
  by (auto simp: is_dir_def map_of_write_file fun_eq_iff)

lemma resolve_write_file:
  "c \<noteq> Dir \<Longrightarrow> map_of d q \<noteq> Some Dir \<Longrightarrow> resolve L (write_file q c d) p = resolve L d p"
  by (simp add: resolve_def is_dir_write_file)

lemma path_exists_written:
  assumes "resolve L d p = Some q" and "c \<noteq> Dir" and "map_of d q \<noteq> Some Dir"
  shows "path_exists L (write_file q c d) p"
  using assms by (simp add: path_exists_def resolve_write_file map_of_write_file)

lemma path_exists_kept:
  assumes "path_exists L d p" and "c \<noteq> Dir" and "map_of d q \<noteq> Some Dir"
  shows "path_exists L (write_file q c d) p"
  using assms
  by (auto simp: path_exists_def resolve_write_file is_dir_write_file map_of_write_file
           split: option.splits)

section \<open>The outcome of an attempt\<close>

lemma fetch_aborts:
  assumes "reaches_stream L e url r (disk s) q" "MAX_BYTES < length (body r)"
  shows "respectful_fetch L e url s = (Aborted url, s)"
proof -
  from stream_exceeded[of 0 "chunks r" "[]"] assms(2)
  obtain w where w: "stream_chunks (chunks r) 0 [] = Exceeded w"
    by (auto simp: body_def)
  from assms(1) have "open_target L e (disk s)
      (ensure_unique_path L (disk s) (path_join FETCH_DIR (resolve_name L e url r))) = Some q"
    by (simp add: reaches_stream_def out_path_of_def)
  then have "map_of (disk s) q = None"
    by (rule open_target_fresh)
  then have "remove_file q (write_file q (Raw w) (disk s)) = disk s"
    by (rule remove_write_fresh)
  with assms(1) w show ?thesis
    by (simp add: respectful_fetch_def fetch_body_def download_def reaches_stream_def
        out_path_of_def Let_def)
qed

lemma fetch_body_completes:
  assumes "transfers L e url r (disk s) q" "length (body r) \<le> MAX_BYTES"
  shows "fetch_body L e url s =
         finish L e url (out_path_of L e url r (disk s)) q (body r)
           (s\<lparr>disk := write_file q (Raw (body r)) (disk s)\<rparr>)"
proof -
  from stream_complete[of 0 "chunks r" "[]"] assms(2)
  have "stream_chunks (chunks r) 0 [] = Completed (body r)"
    by (simp add: body_def)
  with assms(1) show ?thesis
    by (simp add: fetch_body_def download_def transfers_def reaches_stream_def
        out_path_of_def Let_def)
qed

lemma lookup_hash_shaped:
  "m = JObj kvs \<Longrightarrow> map_of kvs ''hashes'' = Some (JObj hs) \<Longrightarrow> lookup_hash m h = map_of hs h"
  by (simp add: lookup_hash_def getitem_def)

lemma finish_new:
  assumes "manifest_shaped (manifest s)" "lookup_hash (manifest s) (sha256 L w) = None"
    "can_save L e (disk s)"
  shows "finish L e url p q w s =
         (Inr (Fetched (basename p) p),
          \<lparr>disk = save_manifest L (snd (record_entry (manifest s) (sha256 L w) (basename p)))
                    (disk s),
           manifest = snd (record_entry (manifest s) (sha256 L w) (basename p))\<rparr>)"
proof -
  from assms(1) obtain kvs hs fl where m: "manifest s = JObj kvs"
    "map_of kvs ''hashes'' = Some (JObj hs)" "map_of kvs ''files'' = Some (JArr fl)"
    and r: "record_entry (manifest s) (sha256 L w) (basename p) =
        (None, JObj (dict_set ''files'' (JArr (fl @ [JStr (basename p)]))
        (dict_set ''hashes'' (JObj (dict_set (sha256 L w) (JStr (basename p)) hs)) kvs)))"
    by (rule record_entry_shaped)
  from m assms(2) have "map_of hs (sha256 L w) = None"
    by (simp add: lookup_hash_shaped)
  with m r assms(3) show ?thesis
    by (simp add: finish_def Let_def getitem_def contains_def can_save_def)
qed

lemma finish_duplicate:
  assumes "manifest_shaped (manifest s)" "lookup_hash (manifest s) (sha256 L w) = Some x"
  shows "finish L e url p q w s = (Inr (DuplicateSkipped x url), s\<lparr>disk := remove_file q (disk s)\<rparr>)"
proof -
  from assms(1) obtain kvs hs fl where m: "manifest s = JObj kvs"
    "map_of kvs ''hashes'' = Some (JObj hs)" "map_of kvs ''files'' = Some (JArr fl)"
    by (auto simp: manifest_shaped_iff)
  from m assms(2) have "map_of hs (sha256 L w) = Some x"
    by (simp add: lookup_hash_shaped)
  with m show ?thesis
    by (simp add: finish_def Let_def getitem_def contains_def)
qed

lemma can_save_written: "can_save L e d \<Longrightarrow> can_save L e (write_file q (Raw w) d)"
  by (simp add: can_save_def map_of_write_file)

lemma fetch_stores:
  assumes "transfers L e url r (disk s) q" "length (body r) \<le> MAX_BYTES"
    "can_save L e (disk s)"
    "manifest_shaped (manifest s)" "lookup_hash (manifest s) (sha256 L (body r)) = None"
  shows "respectful_fetch L e url s =
     (Fetched (name_of L e url r (disk s)) (out_path_of L e url r (disk s)),
      \<lparr>disk = save_manifest L (recorded L e url r s)
                (write_file q (Raw (body r)) (disk s)),
       manifest = recorded L e url r s\<rparr>)"
  using assms
  by (simp add: respectful_fetch_def fetch_body_completes finish_new can_save_written
      name_of_def recorded_def)

lemma fetch_duplicate:
  assumes "transfers L e url r (disk s) q" "length (body r) \<le> MAX_BYTES"
    "manifest_shaped (manifest s)" "lookup_hash (manifest s) (sha256 L (body r)) = Some x"
  shows "respectful_fetch L e url s = (DuplicateSkipped x url, s)"
proof -
  from assms(1) have "open_target L e (disk s)
      (ensure_unique_path L (disk s) (path_join FETCH_DIR (resolve_name L e url r))) = Some q"
    by (simp add: transfers_def reaches_stream_def out_path_of_def)
  then have "map_of (disk s) q = None"
    by (rule open_target_fresh)
  then have "remove_file q (write_file q (Raw (body r)) (disk s)) = disk s"
    by (rule remove_write_fresh)
  with assms show ?thesis
    by (simp add: respectful_fetch_def fetch_body_completes finish_duplicate)
qed

lemma record_entry_result:
  assumes "manifest_shaped m"
  shows "manifest_shaped (snd (record_entry m h n))
    \<and> lookup_hash (snd (record_entry m h n)) h' = (if h' = h then Some (JStr n) else lookup_hash m h')
    \<and> file_entries (snd (record_entry m h n)) = file_entries m @ [JStr n]"
proof -
  from assms obtain kvs hs fl where m: "m = JObj kvs"
    "map_of kvs ''hashes'' = Some (JObj hs)" "map_of kvs ''files'' = Some (JArr fl)"
    and r: "record_entry m h n =
        (None, JObj (dict_set ''files'' (JArr (fl @ [JStr n]))
        (dict_set ''hashes'' (JObj (dict_set h (JStr n) hs)) kvs)))"
    by (rule record_entry_shaped)
  from r have r': "snd (record_entry m h n) =
        JObj (dict_set ''files'' (JArr (fl @ [JStr n]))
        (dict_set ''hashes'' (JObj (dict_set h (JStr n) hs)) kvs))"
    by simp
  show ?thesis
    unfolding r' using m
    by (simp add: manifest_shaped_iff lookup_hash_def file_entries_def getitem_def
        map_of_dict_set)
qed

lemma dict_set_absent: "map_of xs k = None \<Longrightarrow> dict_set k v xs = xs @ [(k, v)]"
  by (induction xs) (auto split: if_splits)

lemma record_entry_keys:
  assumes "manifest_shaped m" "lookup_hash m h = None"
  shows "hash_keys (snd (record_entry m h n)) = hash_keys m @ [h]"
proof -
  from assms(1) obtain kvs hs fl where m: "m = JObj kvs"
    "map_of kvs ''hashes'' = Some (JObj hs)" "map_of kvs ''files'' = Some (JArr fl)"
    and r: "record_entry m h n =
        (None, JObj (dict_set ''files'' (JArr (fl @ [JStr n]))
        (dict_set ''hashes'' (JObj (dict_set h (JStr n) hs)) kvs)))"
    by (rule record_entry_shaped)
  from m assms(2) have "map_of hs h = None" by (simp add: lookup_hash_shaped)
  then have "dict_set h (JStr n) hs = hs @ [(h, JStr n)]" by (rule dict_set_absent)
  moreover from r have "snd (record_entry m h n) =
        JObj (dict_set ''files'' (JArr (fl @ [JStr n]))
        (dict_set ''hashes'' (JObj (dict_set h (JStr n) hs)) kvs))"
    by simp
  ultimately show ?thesis
    using m by (simp add: hash_keys_def getitem_def map_of_dict_set)
qed


lemma recorded_result:
  assumes "manifest_shaped (manifest s)"
  shows "manifest_shaped (recorded L e url r s)"
    and "lookup_hash (recorded L e url r s) h' =
      (if h' = sha256 L (body r) then Some (JStr (name_of L e url r (disk s)))
       else lookup_hash (manifest s) h')"
    and "file_entries (recorded L e url r s)
          = file_entries (manifest s) @ [JStr (name_of L e url r (disk s))]"
  using record_entry_result[OF assms] by (simp_all add: recorded_def)

text \<open>
  The disk after a store: the body was written at \<open>q\<close>, then the manifest was saved at
  its own location. The written file holds the body unless \<open>q\<close> is the location of the
  manifest, where the save has replaced it.
\<close>

lemma stored_disk:
  assumes "d1 = save_manifest L m (write_file q (Raw w) d)"
  shows "map_of d1 q = Some (if q = manifest_loc L then Json m else Raw w)"
    and "map_of d1 (manifest_loc L) = Some (Json m)"
    and "x \<noteq> q \<Longrightarrow> x \<noteq> manifest_loc L \<Longrightarrow> map_of d1 x = map_of d x"
  using assms
  by (simp_all add: save_manifest_def map_of_write_file)

lemma stored_path_exists:
  assumes "d1 = save_manifest L m (write_file q (Raw w) d)"
    and "resolve L d p = Some q" and "map_of d q \<noteq> Some Dir"
    and "map_of d (manifest_loc L) \<noteq> Some Dir"
  shows "path_exists L d1 p"
proof -
  have a: "path_exists L (write_file q (Raw w) d) p"
    using assms(2) _ assms(3) by (rule path_exists_written) simp
  have b: "map_of (write_file q (Raw w) d) (manifest_loc L) \<noteq> Some Dir"
    using assms(4) by (simp add: map_of_write_file)
  have "path_exists L (write_file (manifest_loc L) (Json m) (write_file q (Raw w) d)) p"
    using a _ b by (rule path_exists_kept) simp
  then show ?thesis
    by (simp add: assms(1) save_manifest_def)
qed

section \<open>Two attempts in sequence\<close>

text \<open>
  The second of two attempts that receive the same bytes, the first storing them as new
  content, reports a duplicate that names the file the first recorded and leaves the
  state as the first left it. The location the first wrote holds the body afterwards,
  unless it is the location of the manifest, where the save of the first attempt has
  replaced the body by the manifest.
\<close>

lemma second_identical_attempt:
  assumes "transfers L e1 url1 r1 (disk s0) q1" and "transfers L e2 url2 r2 (disk s1) q2"
    and "body r2 = body r1" and "length (body r1) \<le> MAX_BYTES" and "can_save L e1 (disk s0)"
    and "manifest_shaped (manifest s0)"
    and "lookup_hash (manifest s0) (sha256 L (body r1)) = None"
    and "respectful_fetch L e1 url1 s0 = (o1, s1)"
    and "respectful_fetch L e2 url2 s1 = (o2, s2)"
  shows "o1 = Fetched (name_of L e1 url1 r1 (disk s0)) (out_path_of L e1 url1 r1 (disk s0))
     \<and> o2 = DuplicateSkipped (JStr (name_of L e1 url1 r1 (disk s0))) url2
     \<and> s2 = s1
     \<and> hash_keys (manifest s1) = hash_keys (manifest s0) @ [sha256 L (body r1)]
     \<and> map_of (disk s2) q2 = None
     \<and> map_of (disk s2) q1
         = Some (if q1 = manifest_loc L then Json (manifest s1) else Raw (body r1))"
proof -
  from fetch_stores[OF assms(1,4,5,6,7)] assms(8)
  have o1: "o1 = Fetched (name_of L e1 url1 r1 (disk s0)) (out_path_of L e1 url1 r1 (disk s0))"
    and d1: "disk s1 = save_manifest L (recorded L e1 url1 r1 s0)
                (write_file q1 (Raw (body r1)) (disk s0))"
    and m1: "manifest s1 = recorded L e1 url1 r1 s0"
    by auto
  from m1 recorded_result[OF assms(6), of L e1 url1 r1]
  have sh1: "manifest_shaped (manifest s1)"
    and lk1: "lookup_hash (manifest s1) (sha256 L (body r2))
                = Some (JStr (name_of L e1 url1 r1 (disk s0)))"
    by (simp_all add: assms(3))
  from assms(3,4) have len2: "length (body r2) \<le> MAX_BYTES" by simp
  from fetch_duplicate[OF assms(2) len2 sh1 lk1] assms(9)
  have o2: "o2 = DuplicateSkipped (JStr (name_of L e1 url1 r1 (disk s0))) url2" and s2: "s2 = s1"
    by auto
  have keys: "hash_keys (manifest s1) = hash_keys (manifest s0) @ [sha256 L (body r1)]"
    using record_entry_keys[OF assms(6,7)] by (simp add: m1 recorded_def)
  from assms(2) have "open_target L e2 (disk s1)
      (ensure_unique_path L (disk s1) (path_join FETCH_DIR (resolve_name L e2 url2 r2))) = Some q2"
    by (simp add: transfers_def reaches_stream_def out_path_of_def)
  then have fresh: "map_of (disk s1) q2 = None"
    by (rule open_target_fresh)
  from o1 o2 s2 keys fresh stored_disk(1)[OF d1] m1 show ?thesis
    by simp
qed

text \<open>
  The path \<^verbatim>\<open>ensure_unique_path\<close> returns does not exist: it is the path itself if
  that is free, else the first free one among the numbered names. Two attempts in
  sequence that store new, distinct contents therefore write to two distinct locations,
  each free when it was resolved. The second holds its body afterwards; the first holds
  its body unless it is the location of the manifest.
\<close>

lemma ensure_unique_path_result:
  "\<not> path_exists L d (ensure_unique_path L d path)
   \<and> (if path_exists L d path
       then \<exists>i\<ge>1. ensure_unique_path L d path = candidate path i
              \<and> (\<forall>k. 1 \<le> k \<and> k < i \<longrightarrow> path_exists L d (candidate path k))
       else ensure_unique_path L d path = path)"
  using ensure_unique_path_numbered[of L d path] ensure_unique_path_free[of L d path]
    ensure_unique_path_not_exists[of L d path]
  by simp

lemma two_stores_distinct:
  assumes "transfers L e1 url1 r1 (disk s0) q1" and "transfers L e2 url2 r2 (disk s1) q2"
    and "length (body r1) \<le> MAX_BYTES" and "length (body r2) \<le> MAX_BYTES"
    and "can_save L e1 (disk s0)" and "\<not> save_fails e2"
    and "sha256 L (body r1) \<noteq> sha256 L (body r2)"
    and "manifest_shaped (manifest s0)"
    and "lookup_hash (manifest s0) (sha256 L (body r1)) = None"
    and "lookup_hash (manifest s0) (sha256 L (body r2)) = None"
    and "respectful_fetch L e1 url1 s0 = (o1, s1)"
    and "respectful_fetch L e2 url2 s1 = (o2, s2)"
  shows "o1 = Fetched (name_of L e1 url1 r1 (disk s0)) (out_path_of L e1 url1 r1 (disk s0))
     \<and> o2 = Fetched (name_of L e2 url2 r2 (disk s1)) (out_path_of L e2 url2 r2 (disk s1))
     \<and> q1 \<noteq> q2 \<and> q2 \<noteq> manifest_loc L
     \<and> map_of (disk s0) q1 = None \<and> map_of (disk s1) q2 = None
     \<and> map_of (disk s2) q2 = Some (Raw (body r2))
     \<and> map_of (disk s2) q1
         = Some (if q1 = manifest_loc L then Json (manifest s2) else Raw (body r1))"
proof -
  from fetch_stores[OF assms(1,3,5,8,9)] assms(11)
  have o1: "o1 = Fetched (name_of L e1 url1 r1 (disk s0)) (out_path_of L e1 url1 r1 (disk s0))"
    and d1: "disk s1 = save_manifest L (recorded L e1 url1 r1 s0)
                (write_file q1 (Raw (body r1)) (disk s0))"
    and m1: "manifest s1 = recorded L e1 url1 r1 s0"
    by auto
  from m1 recorded_result[OF assms(8), of L e1 url1 r1] assms(7,10)
  have sh1: "manifest_shaped (manifest s1)"
    and lk1: "lookup_hash (manifest s1) (sha256 L (body r2)) = None"
    by auto
  have cs2: "can_save L e2 (disk s1)"
    using assms(6) stored_disk(2)[OF d1] by (simp add: can_save_def)
  from fetch_stores[OF assms(2,4) cs2 sh1 lk1] assms(12)
  have o2: "o2 = Fetched (name_of L e2 url2 r2 (disk s1)) (out_path_of L e2 url2 r2 (disk s1))"
    and d2: "disk s2 = save_manifest L (recorded L e2 url2 r2 s1)
                (write_file q2 (Raw (body r2)) (disk s1))"
    and m2: "manifest s2 = recorded L e2 url2 r2 s1"
    by auto
  from assms(1) have "open_target L e1 (disk s0)
      (ensure_unique_path L (disk s0) (path_join FETCH_DIR (resolve_name L e1 url1 r1))) = Some q1"
    by (simp add: transfers_def reaches_stream_def out_path_of_def)
  then have f1: "map_of (disk s0) q1 = None"
    by (rule open_target_fresh)
  from assms(2) have "open_target L e2 (disk s1)
      (ensure_unique_path L (disk s1) (path_join FETCH_DIR (resolve_name L e2 url2 r2))) = Some q2"
    by (simp add: transfers_def reaches_stream_def out_path_of_def)
  then have f2: "map_of (disk s1) q2 = None"
    by (rule open_target_fresh)
  from f2 stored_disk(1,2)[OF d1] have ne: "q1 \<noteq> q2" and nm: "q2 \<noteq> manifest_loc L"
    by auto
  have c2: "map_of (disk s2) q2 = Some (Raw (body r2))"
    using stored_disk(1)[OF d2] nm by simp
  have c1: "map_of (disk s2) q1
         = Some (if q1 = manifest_loc L then Json (manifest s2) else Raw (body r1))"
  proof (cases "q1 = manifest_loc L")
    case True
    then show ?thesis
      using stored_disk(2)[OF d2] m2 by simp
  next
    case False
    then show ?thesis
      using stored_disk(3)[OF d2 ne False] stored_disk(1)[OF d1] by simp
  qed
  from o1 o2 ne nm f1 f2 c2 c1 show ?thesis
    by simp
qed

section \<open>Evaluation of the examples\<close>

lemma demo_manifest_loc: "manifest_loc demo_lib = [''w'', ''Fetched_Images'', ''_manifest.json'']"
  by (simp add: manifest_loc_def fetch_dir_loc_def demo_lib_def FETCH_DIR_def)

lemma demo_body: "body (image_response cd cs) = concat cs"
  by (simp add: body_def image_response_def)

lemma demo_sha: "sha256 demo_lib b = ''sha:'' @ b"
  by (simp add: demo_lib_def)

lemma demo_probe: "probe L (demo_env cd cs) url = Inr None"
  by (simp add: probe_def demo_env_def)

lemma demo_transfers:
  assumes "resolve demo_lib d (out_path_of demo_lib (demo_env cd cs) url (image_response cd cs) d)
           = Some q"
  shows "transfers demo_lib (demo_env cd cs) url (image_response cd cs) d q"
proof -
  let ?p = "out_path_of demo_lib (demo_env cd cs) url (image_response cd cs) d"
  have "\<not> path_exists demo_lib d ?p"
    by (simp add: out_path_of_def ensure_unique_path_not_exists)
  with assms have nd: "\<not> is_dir demo_lib d q"
    by (simp add: path_exists_def)
  have "get_reply (demo_env cd cs) = Reply (image_response cd cs)"
    "\<not> makedirs_fails (demo_env cd cs)" "\<not> open_fails (demo_env cd cs)"
    "\<not> status_error (image_response cd cs)" "\<not> stream_fails (image_response cd cs)"
    "is_image_response (image_response cd cs)"
    by (simp_all add: demo_env_def image_response_def is_image_response_def header_or_empty_def
        startswith_def)
  with assms nd show ?thesis
    by (simp add: transfers_def reaches_stream_def demo_probe open_target_def)
qed

lemma demo_names:
  "safe_filename_from_url demo_lib t ''http://h/a.png'' = ''a.png''"
  "safe_filename_from_url demo_lib t ''http://g/x/b.png'' = ''b.png''"
  "safe_filename_from_url demo_lib t ''http://h/_manifest.json'' = ''_manifest.json''"
  by (simp_all add: safe_filename_from_url_def demo_lib_def strip_chars_def is_space_def
      allowed_char_def isalnum_def)

lemma demo_resolve_name:
  "resolve_name demo_lib (demo_env None cs) url (image_response None cs)
     = safe_filename_from_url demo_lib 0 url"
  by (simp add: resolve_name_def filename_from_headers_def image_response_def demo_env_def)

lemma demo_paths:
  "path_join FETCH_DIR ''a.png'' = ''Fetched_Images/a.png''"
  "path_join FETCH_DIR ''b.png'' = ''Fetched_Images/b.png''"
  "path_join FETCH_DIR ''_manifest.json'' = ''Fetched_Images/_manifest.json''"
  by (simp_all add: path_join_def FETCH_DIR_def)

lemma demo_basenames:
  "basename ''Fetched_Images/a.png'' = ''a.png''"
  "basename ''Fetched_Images/b.png'' = ''b.png''"
  "basename ''Fetched_Images/_manifest.json'' = ''_manifest.json''"
  "basename ''Fetched_Images/_manifest (1).json'' = ''_manifest (1).json''"
  by (simp_all add: basename_def split_last_def)

lemma demo_resolve:
  "resolve demo_lib d ''Fetched_Images/a.png'' = Some [''w'', ''Fetched_Images'', ''a.png'']"
  "resolve demo_lib d ''Fetched_Images/b.png'' = Some [''w'', ''Fetched_Images'', ''b.png'']"
  "resolve demo_lib d ''Fetched_Images/_manifest.json''
     = Some [''w'', ''Fetched_Images'', ''_manifest.json'']"
  "resolve demo_lib d ''Fetched_Images/_manifest (1).json''
     = Some [''w'', ''Fetched_Images'', ''_manifest (1).json'']"
  by (simp_all add: resolve_eval demo_lib_def)

lemma demo_is_dir:
  "is_dir demo_lib d [''w'', ''Fetched_Images'', x]
     = (map_of d [''w'', ''Fetched_Images'', x] = Some Dir)"
  by (simp add: is_dir_def is_prefix_def fetch_dir_loc_def FETCH_DIR_def demo_lib_def)

lemma demo_exists:
  "path_exists demo_lib d ''Fetched_Images/a.png''
     = (map_of d [''w'', ''Fetched_Images'', ''a.png''] \<noteq> None)"
  "path_exists demo_lib d ''Fetched_Images/b.png''
     = (map_of d [''w'', ''Fetched_Images'', ''b.png''] \<noteq> None)"
  "path_exists demo_lib d ''Fetched_Images/_manifest.json''
     = (map_of d [''w'', ''Fetched_Images'', ''_manifest.json''] \<noteq> None)"
  "path_exists demo_lib d ''Fetched_Images/_manifest (1).json''
     = (map_of d [''w'', ''Fetched_Images'', ''_manifest (1).json''] \<noteq> None)"
  by (auto simp add: path_exists_def demo_resolve demo_is_dir)

lemma str_nat_one: "str_nat (Suc 0) = ''1''"
  by code_simp

lemma demo_candidate:
  "candidate ''Fetched_Images/_manifest.json'' (Suc 0) = ''Fetched_Images/_manifest (1).json''"
  by (simp add: candidate_def splitext_def split_last_def numbered_def str_nat_one)

lemma demo_unique:
  assumes "map_of d [''w'', ''Fetched_Images'', ''_manifest.json''] \<noteq> None"
    and "map_of d [''w'', ''Fetched_Images'', ''_manifest (1).json''] = None"
  shows "ensure_unique_path demo_lib d ''Fetched_Images/_manifest.json''
         = ''Fetched_Images/_manifest (1).json''"
proof -
  have "unique_loop demo_lib d ''Fetched_Images/_manifest.json'' (Suc (Suc 0))
          ''Fetched_Images/_manifest (1).json'' = ''Fetched_Images/_manifest (1).json''"
    using assms(2) by (simp add: unique_loop_fresh demo_exists)
  with assms(1) show ?thesis
    by (simp add: ensure_unique_path_def unique_loop.simps[of _ _ _ "Suc 0"] demo_exists
        demo_candidate)
qed

lemma demo_shaped:
  "manifest_shaped empty_manifest" "manifest_shaped (one_entry h n)"
  by (simp_all add: manifest_shaped_iff empty_manifest_def one_entry_def)

lemma demo_lookup:
  "lookup_hash empty_manifest h = None"
  "lookup_hash (one_entry h n) h' = (if h' = h then Some (JStr n) else None)"
  by (simp_all add: lookup_hash_def empty_manifest_def one_entry_def getitem_def)

lemma demo_record:
  "snd (record_entry empty_manifest h n) = one_entry h n"
  "h' \<noteq> h \<Longrightarrow> snd (record_entry (one_entry h n) h' n') = two_entries h n h' n'"
  by (simp_all add: record_entry_def empty_manifest_def one_entry_def two_entries_def
      getitem_def setitem_def put_back_def list_append_def)

text \<open>
  An attempt of the examples that receives the chunks \<open>cs\<close> within the cap, with the
  output path \<open>p\<close> at the location \<open>q\<close>: new content is stored and recorded, known
  content is skipped.
\<close>

lemma demo_store:
  assumes "out_path_of demo_lib (demo_env None cs) url (image_response None cs) (disk s) = p"
    and "resolve demo_lib (disk s) p = Some q"
    and "length (concat cs) \<le> MAX_BYTES"
    and "manifest_shaped (manifest s)"
    and "lookup_hash (manifest s) (''sha:'' @ concat cs) = None"
    and "map_of (disk s) (manifest_loc demo_lib) \<noteq> Some Dir"
  shows "respectful_fetch demo_lib (demo_env None cs) url s
         = (Fetched (basename p) p,
            \<lparr>disk = write_file (manifest_loc demo_lib)
                     (Json (snd (record_entry (manifest s) (''sha:'' @ concat cs) (basename p))))
                     (write_file q (Raw (concat cs)) (disk s)),
             manifest = snd (record_entry (manifest s) (''sha:'' @ concat cs) (basename p))\<rparr>)"
proof -
  let ?e = "demo_env None cs" and ?r = "image_response None cs"
  have t: "transfers demo_lib ?e url ?r (disk s) q"
    by (rule demo_transfers) (simp add: assms(1,2))
  have len: "length (body ?r) \<le> MAX_BYTES"
    using assms(3) by (simp add: demo_body)
  have cs: "can_save demo_lib ?e (disk s)"
    using assms(6) by (simp add: can_save_def demo_env_def)
  have lk: "lookup_hash (manifest s) (sha256 demo_lib (body ?r)) = None"
    using assms(5) by (simp add: demo_body demo_sha)
  show ?thesis
    using fetch_stores[OF t len cs assms(4) lk] assms(1)
    by (simp add: name_of_def recorded_def demo_body demo_sha save_manifest_def)
qed

lemma demo_skip:
  assumes "out_path_of demo_lib (demo_env None cs) url (image_response None cs) (disk s) = p"
    and "resolve demo_lib (disk s) p = Some q"
    and "length (concat cs) \<le> MAX_BYTES"
    and "manifest_shaped (manifest s)"
    and "lookup_hash (manifest s) (''sha:'' @ concat cs) = Some x"
  shows "respectful_fetch demo_lib (demo_env None cs) url s = (DuplicateSkipped x url, s)"
proof -
  let ?e = "demo_env None cs" and ?r = "image_response None cs"
  have t: "transfers demo_lib ?e url ?r (disk s) q"
    by (rule demo_transfers) (simp add: assms(1,2))
  have len: "length (body ?r) \<le> MAX_BYTES"
    using assms(3) by (simp add: demo_body)
  have lk: "lookup_hash (manifest s) (sha256 demo_lib (body ?r)) = Some x"
    using assms(5) by (simp add: demo_body demo_sha)
  show ?thesis
    by (rule fetch_duplicate[OF t len assms(4) lk])
qed

text \<open>
  The first image of a run whose URL ends in \<^verbatim>\<open>_manifest.json\<close>, in a directory
  without a manifest: the unique path is the path of the manifest, the body is written
  there, and the save that follows puts the manifest in its place.
\<close>

lemma manifest_named_fetch:
  assumes "length (concat cs) \<le> MAX_BYTES"
  shows "respectful_fetch demo_lib (demo_env None cs) ''http://h/_manifest.json''
           \<lparr>disk = [], manifest = empty_manifest\<rparr>
         = (Fetched ''_manifest.json'' ''Fetched_Images/_manifest.json'',
            \<lparr>disk = [([''w'', ''Fetched_Images'', ''_manifest.json''],
                      Json (one_entry (''sha:'' @ concat cs) ''_manifest.json''))],
             manifest = one_entry (''sha:'' @ concat cs) ''_manifest.json''\<rparr>)"
proof -
  let ?e = "demo_env None cs" and ?r = "image_response None cs"
  let ?s = "\<lparr>disk = [], manifest = empty_manifest\<rparr>"
  have op: "out_path_of demo_lib ?e ''http://h/_manifest.json'' ?r (disk ?s)
            = ''Fetched_Images/_manifest.json''"
    by (simp add: out_path_of_def demo_resolve_name demo_names demo_paths
        ensure_unique_path_free demo_exists)
  show ?thesis
    using demo_store[OF op demo_resolve(3) assms, of ]
    by (simp add: demo_shaped demo_lookup demo_record demo_basenames demo_manifest_loc
        write_file_def)
qed

section \<open>The run over the list of URLs\<close>

lemma fetch_all_length: "length (fst (fetch_all L world k urls s)) = length urls"
  by (induction urls arbitrary: k s) (simp_all add: split_beta Let_def)

lemma fetch_all_snoc:
  "fetch_all L world k (us @ [u]) s =
     (fst (fetch_all L world k us s)
        @ [fst (respectful_fetch L (world (k + length us)) u (snd (fetch_all L world k us s)))],
      snd (respectful_fetch L (world (k + length us)) u (snd (fetch_all L world k us s))))"
  by (induction us arbitrary: k s) (simp_all add: split_beta Let_def)

lemma attempt_state_take:
  "k \<le> length us \<Longrightarrow> attempt_state L world (us @ vs) s k = attempt_state L world us s k"
  by (induction k) (simp_all add: nth_append)

lemma fetch_all_attempts:
  "fetch_all L world 0 urls s =
     (map (\<lambda>k. fst (respectful_fetch L (world k) (urls ! k) (attempt_state L world urls s k)))
          [0..<length urls],
      attempt_state L world urls s (length urls))"
proof (induction urls rule: rev_induct)
  case Nil
  show ?case by simp
next
  case (snoc u us)
  have pre: "map (\<lambda>k. fst (respectful_fetch L (world k) ((us @ [u]) ! k)
                              (attempt_state L world (us @ [u]) s k))) [0..<length us]
           = map (\<lambda>k. fst (respectful_fetch L (world k) (us ! k)
                              (attempt_state L world us s k))) [0..<length us]"
    by (rule map_cong) (simp_all add: nth_append attempt_state_take)
  have st: "attempt_state L world (us @ [u]) s (length us) = attempt_state L world us s (length us)"
    by (simp add: attempt_state_take)
  show ?case
    by (simp add: fetch_all_snoc snoc.IH pre st)
qed

lemma parse_urls_empty: "parse_urls [] = []"
  by (simp add: parse_urls_def split_ws_def)

text \<open>
  What ends an attempt early, and the line it prints: the directory cannot be made, the
  GET request fails or is answered with an error status, the answer is no image, the
  output file cannot be opened, the transfer breaks off. Up to the opening of the file
  the state is as it was.
\<close>

lemma attempt_failure_lines:
  "makedirs_fails e \<Longrightarrow> respectful_fetch L e url s = (ErrorOccurred OSError, s)"
  "\<not> makedirs_fails e \<Longrightarrow> probe L e url = Inr None \<Longrightarrow> get_reply e = Raises
     \<Longrightarrow> respectful_fetch L e url s = (ConnectionError, s)"
  "\<not> makedirs_fails e \<Longrightarrow> probe L e url = Inr None \<Longrightarrow> get_reply e = Reply r
     \<Longrightarrow> status_error r \<Longrightarrow> respectful_fetch L e url s = (ConnectionError, s)"
  "\<not> makedirs_fails e \<Longrightarrow> probe L e url = Inr None \<Longrightarrow> get_reply e = Reply r
     \<Longrightarrow> \<not> status_error r \<Longrightarrow> \<not> is_image_response r
     \<Longrightarrow> respectful_fetch L e url s
         = (NotAnImage (case content_type r of None \<Rightarrow> ''?'' | Some t \<Rightarrow> t) url, s)"
  "\<not> makedirs_fails e \<Longrightarrow> probe L e url = Inr None \<Longrightarrow> get_reply e = Reply r
     \<Longrightarrow> \<not> status_error r \<Longrightarrow> is_image_response r
     \<Longrightarrow> open_target L e (disk s) (out_path_of L e url r (disk s)) = None
     \<Longrightarrow> respectful_fetch L e url s = (ErrorOccurred OSError, s)"
  "reaches_stream L e url r (disk s) q \<Longrightarrow> length (body r) \<le> MAX_BYTES \<Longrightarrow> stream_fails r
     \<Longrightarrow> respectful_fetch L e url s
         = (ConnectionError, s\<lparr>disk := write_file q (Raw (body r)) (disk s)\<rparr>)"
  by (simp_all add: respectful_fetch_def fetch_body_def download_def out_path_of_def Let_def
      reaches_stream_def body_def stream_complete)

text \<open>
  C9. An attempt has no way out but its printed line: the type of \<^verbatim>\<open>respectful_fetch\<close>
  has no exception, every exception of its body being turned into a line by the two
  handlers, and \<^verbatim>\<open>load_manifest\<close> has none either. \<^verbatim>\<open>main\<close> therefore ends with
  status 0, and what it prints and leaves is the work of \<^verbatim>\<open>respectful_fetch\<close> on
  every URL of the input, in order: the \<open>k\<close>-th line is the outcome of the attempt on the
  \<open>k\<close>-th URL, started in the state the attempts before it have left, whatever their
  outcomes were, and the disk at the end is the one the last attempt leaves.
\<close>

theorem main_reports_every_url:
  "main L world unreadable line d =
     (let urls = parse_urls (strip_chars is_space line);
          s0 = \<lparr>disk = d, manifest = load_manifest L unreadable d\<rparr>
      in (0,
          map (\<lambda>k. fst (respectful_fetch L (world k) (urls ! k) (attempt_state L world urls s0 k)))
              [0..<length urls],
          disk (attempt_state L world urls s0 (length urls))))"
  by (simp add: main_def Let_def parse_urls_empty split_beta fetch_all_attempts)

lemma demo_load: "load_manifest demo_lib False [] = empty_manifest"
  by (simp add: load_manifest_def read_manifest_def path_exists_MANIFEST)

lemma demo_lines:
  "strip_chars is_space ''http://h/x http://h/page http://h/a.png''
     = ''http://h/x http://h/page http://h/a.png''"
  "parse_urls ''http://h/x http://h/page http://h/a.png''
     = [''http://h/x'', ''http://h/page'', ''http://h/a.png'']"
  "strip_chars is_space ''http://h/_manifest.json http://g/x/b.png''
     = ''http://h/_manifest.json http://g/x/b.png''"
  "parse_urls ''http://h/_manifest.json http://g/x/b.png''
     = [''http://h/_manifest.json'', ''http://g/x/b.png'']"
  "strip_chars is_space ''http://h/_manifest.json,http://h/_manifest.json''
     = ''http://h/_manifest.json,http://h/_manifest.json''"
  "parse_urls ''http://h/_manifest.json,http://h/_manifest.json''
     = [''http://h/_manifest.json'', ''http://h/_manifest.json'']"
  by (simp_all add: parse_urls_def split_ws_def strip_chars_def is_space_def)

lemma mixed_first:
  "respectful_fetch demo_lib (mixed_world 0) url s = (ConnectionError, s)"
  by (simp add: respectful_fetch_def fetch_body_def probe_def download_def mixed_world_def
      demo_env_def)

lemma mixed_second:
  "respectful_fetch demo_lib (mixed_world (Suc 0)) url s = (NotAnImage ''text/html'' url, s)"
  by (simp add: respectful_fetch_def fetch_body_def probe_def download_def mixed_world_def
      demo_env_def is_image_response_def header_or_empty_def startswith_def)

lemma mixed_third:
  "respectful_fetch demo_lib (mixed_world (Suc (Suc 0))) ''http://h/a.png''
       \<lparr>disk = [], manifest = empty_manifest\<rparr>
     = (Fetched ''a.png'' ''Fetched_Images/a.png'',
        \<lparr>disk = [([''w'', ''Fetched_Images'', ''a.png''], Raw ''A''),
                 ([''w'', ''Fetched_Images'', ''_manifest.json''],
                  Json (one_entry ''sha:A'' ''a.png''))],
         manifest = one_entry ''sha:A'' ''a.png''\<rparr>)"
proof -
  let ?s = "\<lparr>disk = [], manifest = empty_manifest\<rparr>"
  have w: "mixed_world (Suc (Suc 0)) = demo_env None [''A'']"
    by (simp add: mixed_world_def)
  have op: "out_path_of demo_lib (demo_env None [''A'']) ''http://h/a.png''
              (image_response None [''A'']) (disk ?s) = ''Fetched_Images/a.png''"
    by (simp add: out_path_of_def demo_resolve_name demo_names demo_paths
        ensure_unique_path_free demo_exists)
  have len: "length (concat [''A'']) \<le> MAX_BYTES"
    by (simp add: MAX_BYTES_def)
  show ?thesis
    unfolding w
    using demo_store[OF op demo_resolve(1) len]
    by (simp add: demo_shaped demo_lookup demo_record demo_basenames demo_manifest_loc
        write_file_def)
qed

theorem main_reports_every_url_witness:
  "main demo_lib mixed_world False ''http://h/x http://h/page http://h/a.png'' []
     = (0,
        [ConnectionError, NotAnImage ''text/html'' ''http://h/page'',
         Fetched ''a.png'' ''Fetched_Images/a.png''],
        [([''w'', ''Fetched_Images'', ''a.png''], Raw ''A''),
         ([''w'', ''Fetched_Images'', ''_manifest.json''], Json (one_entry ''sha:A'' ''a.png''))])"
  using main_reports_every_url[of demo_lib mixed_world False
      "''http://h/x http://h/page http://h/a.png''" "[]"]
  by (simp add: demo_lines demo_load Let_def mixed_first mixed_second mixed_third)

section \<open>A download at the path of the manifest\<close>

lemma demo_world_attempts:
  "demo_world [c0, c1] 0 = demo_env None c0"
  "demo_world [c0, c1] (Suc 0) = demo_env None c1"
  by (simp_all add: demo_world_def)

lemma length_concat_replicate: "length (concat (replicate n xs)) = n * length xs"
  by (induction n) simp_all

lemma cap_chunks_length: "length (concat cap_chunks) = MAX_BYTES"
  unfolding cap_chunks_def MAX_BYTES_def
  by (simp only: length_concat_replicate length_replicate)

lemma demo_after_first:
  "respectful_fetch demo_lib (demo_env None [''A'']) ''http://h/_manifest.json''
       \<lparr>disk = [], manifest = empty_manifest\<rparr>
     = (Fetched ''_manifest.json'' ''Fetched_Images/_manifest.json'',
        \<lparr>disk = [([''w'', ''Fetched_Images'', ''_manifest.json''],
                  Json (one_entry ''sha:A'' ''_manifest.json''))],
         manifest = one_entry ''sha:A'' ''_manifest.json''\<rparr>)"
  using manifest_named_fetch[of "[''A'']"] by (simp add: MAX_BYTES_def)

lemma demo_second_same:
  "respectful_fetch demo_lib (demo_env None [''A'']) ''http://g/x/b.png''
       \<lparr>disk = [([''w'', ''Fetched_Images'', ''_manifest.json''],
                 Json (one_entry ''sha:A'' ''_manifest.json''))],
        manifest = one_entry ''sha:A'' ''_manifest.json''\<rparr>
     = (DuplicateSkipped (JStr ''_manifest.json'') ''http://g/x/b.png'',
        \<lparr>disk = [([''w'', ''Fetched_Images'', ''_manifest.json''],
                  Json (one_entry ''sha:A'' ''_manifest.json''))],
         manifest = one_entry ''sha:A'' ''_manifest.json''\<rparr>)"
proof -
  let ?s = "\<lparr>disk = [([''w'', ''Fetched_Images'', ''_manifest.json''],
                 Json (one_entry ''sha:A'' ''_manifest.json''))],
        manifest = one_entry ''sha:A'' ''_manifest.json''\<rparr>"
  have op: "out_path_of demo_lib (demo_env None [''A'']) ''http://g/x/b.png''
              (image_response None [''A'']) (disk ?s) = ''Fetched_Images/b.png''"
    by (simp add: out_path_of_def demo_resolve_name demo_names demo_paths
        ensure_unique_path_free demo_exists)
  have len: "length (concat [''A'']) \<le> MAX_BYTES"
    by (simp add: MAX_BYTES_def)
  have lk: "lookup_hash (manifest ?s) (''sha:'' @ concat [''A'']) = Some (JStr ''_manifest.json'')"
    by (simp add: demo_lookup)
  show ?thesis
    by (rule demo_skip[OF op demo_resolve(2) len _ lk]) (simp add: demo_shaped)
qed

lemma demo_second_other:
  "respectful_fetch demo_lib (demo_env None [''B'']) ''http://h/_manifest.json''
       \<lparr>disk = [([''w'', ''Fetched_Images'', ''_manifest.json''],
                 Json (one_entry ''sha:A'' ''_manifest.json''))],
        manifest = one_entry ''sha:A'' ''_manifest.json''\<rparr>
     = (Fetched ''_manifest (1).json'' ''Fetched_Images/_manifest (1).json'',
        \<lparr>disk = [([''w'', ''Fetched_Images'', ''_manifest.json''],
                  Json (two_entries ''sha:A'' ''_manifest.json'' ''sha:B'' ''_manifest (1).json'')),
                 ([''w'', ''Fetched_Images'', ''_manifest (1).json''], Raw ''B'')],
         manifest = two_entries ''sha:A'' ''_manifest.json'' ''sha:B'' ''_manifest (1).json''\<rparr>)"
proof -
  let ?s = "\<lparr>disk = [([''w'', ''Fetched_Images'', ''_manifest.json''],
                 Json (one_entry ''sha:A'' ''_manifest.json''))],
        manifest = one_entry ''sha:A'' ''_manifest.json''\<rparr>"
  have op: "out_path_of demo_lib (demo_env None [''B'']) ''http://h/_manifest.json''
              (image_response None [''B'']) (disk ?s) = ''Fetched_Images/_manifest (1).json''"
    by (simp add: out_path_of_def demo_resolve_name demo_names demo_paths demo_unique)
  have len: "length (concat [''B'']) \<le> MAX_BYTES"
    by (simp add: MAX_BYTES_def)
  show ?thesis
    using demo_store[OF op demo_resolve(4) len]
    by (simp add: demo_shaped demo_lookup demo_record demo_basenames demo_manifest_loc
        write_file_def)
qed

text \<open>
  C1. Two URLs in one run, both answered with the bytes \<^verbatim>\<open>A\<close>, the first ending in
  \<^verbatim>\<open>_manifest.json\<close>, in a directory without a manifest. The first attempt writes the
  image to the path of the manifest and reports it as saved; its own save of the
  manifest then replaces the image. The second attempt is skipped as a duplicate of
  \<^verbatim>\<open>_manifest.json\<close>. At the end the directory holds the manifest and no file with the
  content.
\<close>

theorem identical_content_none_retained:
  "main demo_lib (demo_world [[''A''], [''A'']]) False
        ''http://h/_manifest.json http://g/x/b.png'' []
     = (0,
        [Fetched ''_manifest.json'' ''Fetched_Images/_manifest.json'',
         DuplicateSkipped (JStr ''_manifest.json'') ''http://g/x/b.png''],
        [([''w'', ''Fetched_Images'', ''_manifest.json''],
          Json (one_entry ''sha:A'' ''_manifest.json''))])"
  by (simp add: main_def Let_def demo_lines demo_load demo_world_attempts demo_after_first
      demo_second_same)

text \<open>
  C2. A body of exactly the cap, 1920 chunks of 8192 bytes, whose URL ends in
  \<^verbatim>\<open>_manifest.json\<close>, in a directory without a manifest: the transfer passes the cap
  check and the attempt reports the image as saved, but the file it names holds the
  manifest, and no file holds the body.
\<close>

theorem body_at_cap_not_stored:
  "length (concat cap_chunks) = MAX_BYTES
   \<and> respectful_fetch demo_lib (demo_env None cap_chunks) ''http://h/_manifest.json''
         \<lparr>disk = [], manifest = empty_manifest\<rparr>
       = (Fetched ''_manifest.json'' ''Fetched_Images/_manifest.json'',
          \<lparr>disk = [([''w'', ''Fetched_Images'', ''_manifest.json''],
                    Json (one_entry (''sha:'' @ concat cap_chunks) ''_manifest.json''))],
           manifest = one_entry (''sha:'' @ concat cap_chunks) ''_manifest.json''\<rparr>)"
  using manifest_named_fetch[of cap_chunks] by (simp add: cap_chunks_length)

text \<open>
  C5. Two URLs in one run that both end in \<^verbatim>\<open>_manifest.json\<close>, answered with the
  distinct contents \<^verbatim>\<open>A\<close> and \<^verbatim>\<open>B\<close>, in a directory without a manifest. The unique
  path of the first is the path of the manifest, which does not exist yet; the second
  gets the numbered name. Both are reported as saved, but the file of the first is
  overwritten by the manifest, twice: at the end one of the two contents is on disk.
\<close>

theorem first_of_two_contents_overwritten:
  "main demo_lib (demo_world [[''A''], [''B'']]) False
        ''http://h/_manifest.json,http://h/_manifest.json'' []
     = (0,
        [Fetched ''_manifest.json'' ''Fetched_Images/_manifest.json'',
         Fetched ''_manifest (1).json'' ''Fetched_Images/_manifest (1).json''],
        [([''w'', ''Fetched_Images'', ''_manifest.json''],
          Json (two_entries ''sha:A'' ''_manifest.json'' ''sha:B'' ''_manifest (1).json'')),
         ([''w'', ''Fetched_Images'', ''_manifest (1).json''], Raw ''B'')])"
  by (simp add: main_def Let_def demo_lines demo_load demo_world_attempts demo_after_first
      demo_second_other)


end
